theory Spec2Isabelle
  imports Main "HOL-Library.AList"
begin

section \<open>Python values, strings and errors\<close>

text \<open>
  The vector service of \<^verbatim>\<open>src/analysis/vector_service.py\<close>, embedded function by
  function. A Python \<^verbatim>\<open>str\<close> is a sequence of Unicode code points, and \<^verbatim>\<open>len\<close> counts code
  points, so a string is a list of natural numbers. A database cell, a JSON filter value
  and a movie identifier is \<^verbatim>\<open>None\<close>, a \<^verbatim>\<open>str\<close> or an \<^verbatim>\<open>int\<close>.
\<close>

type_synonym ustring = "nat list"

datatype pyval = PNone | PStr ustring | PInt int

text \<open>Every exception the service can raise is a value.\<close>

datatype error =
    ModelLoadError
  | RepoError
  | EncodeError
  | CacheIOError
  | UnpicklingError
  | IndexError
  | KeyError
  | TypeError
  | AttributeError
  | ValueError

datatype outcome = Returned | Raised error

text \<open>Truthiness (\<^verbatim>\<open>if x:\<close>) and \<^verbatim>\<open>str(x)\<close>.\<close>

fun py_truthy :: "pyval \<Rightarrow> bool" where
  "py_truthy PNone = False"
| "py_truthy (PStr s) = (s \<noteq> [])"
| "py_truthy (PInt i) = (i \<noteq> 0)"

fun nat_digits :: "nat \<Rightarrow> ustring" where
  "nat_digits n = (if n < 10 then [48 + n] else nat_digits (n div 10) @ [48 + n mod 10])"

declare nat_digits.simps [simp del]

fun py_str :: "pyval \<Rightarrow> ustring" where
  "py_str PNone = [78, 111, 110, 101]"
| "py_str (PStr s) = s"
| "py_str (PInt i) = (if i < 0 then 45 # nat_digits (nat (- i)) else nat_digits (nat i))"

text \<open>\<^verbatim>\<open>xs[i]\<close> for a non-negative index: out of range raises \<^verbatim>\<open>IndexError\<close>.\<close>

definition py_index :: "'a list \<Rightarrow> nat \<Rightarrow> error + 'a" where
  "py_index xs i = (if i < length xs then Inr (xs ! i) else Inl IndexError)"

text \<open>\<^verbatim>\<open>xs[start:stop]\<close> with Python's clamping of both bounds.\<close>

definition py_slice :: "'a list \<Rightarrow> int \<Rightarrow> int \<Rightarrow> 'a list" where
  "py_slice xs start stop =
     (let n = int (length xs);
          a = (if start < 0 then max 0 (start + n) else min start n);
          b = (if stop < 0 then max 0 (stop + n) else min stop n)
      in drop (nat a) (take (nat b) xs))"

text \<open>
  \<^verbatim>\<open>str.strip()\<close> removes leading and trailing whitespace; the code points below are
  exactly those for which \<^verbatim>\<open>str.isspace\<close> holds.
\<close>

definition is_space :: "nat \<Rightarrow> bool" where
  "is_space c = (c \<in> set [9, 10, 11, 12, 13, 28, 29, 30, 31, 32, 133, 160, 5760,
     8192, 8193, 8194, 8195, 8196, 8197, 8198, 8199, 8200, 8201, 8202,
     8232, 8233, 8239, 8287, 12288])"

definition strip :: "ustring \<Rightarrow> ustring" where
  "strip s = rev (dropWhile is_space (rev (dropWhile is_space s)))"

text \<open>\<^verbatim>\<open>needle in haystack\<close> on strings: a contiguous occurrence.\<close>

fun is_prefix :: "'a list \<Rightarrow> 'a list \<Rightarrow> bool" where
  "is_prefix [] ys = True"
| "is_prefix (x # xs) [] = False"
| "is_prefix (x # xs) (y # ys) = (x = y \<and> is_prefix xs ys)"

fun is_substr :: "'a list \<Rightarrow> 'a list \<Rightarrow> bool" where
  "is_substr xs [] = (xs = [])"
| "is_substr xs (y # ys) = (is_prefix xs (y # ys) \<or> is_substr xs ys)"

text \<open>
  \<^verbatim>\<open>str.lower()\<close> on the ASCII letters, which is all that the test
  \<^verbatim>\<open>"bge" in self.model_name.lower()\<close> can depend on: no other code point lowers to
  \<^verbatim>\<open>b\<close>, \<^verbatim>\<open>g\<close> or \<^verbatim>\<open>e\<close>.
\<close>

definition py_lower :: "ustring \<Rightarrow> ustring" where
  "py_lower s = map (\<lambda>c. if 65 \<le> c \<and> c \<le> 90 then c + 32 else c) s"

text \<open>
  \<^verbatim>\<open>re.search(r'\d{4}', s)\<close> followed by \<^verbatim>\<open>int(...)\<close>: the value of the first four
  consecutive decimal digits. Which code points are decimal digits, and their values, is
  the table \<open>d\<close> of the regular-expression library.
\<close>

fun year_match :: "(nat \<Rightarrow> nat option) \<Rightarrow> ustring \<Rightarrow> nat option" where
  "year_match d [] = None"
| "year_match d (c # cs) =
     (case map d (take 4 (c # cs)) of
        [Some a, Some b, Some e, Some g] \<Rightarrow> Some (a * 1000 + b * 100 + e * 10 + g)
      | _ \<Rightarrow> year_match d cs)"

definition ascii_digit :: "nat \<Rightarrow> nat option" where
  "ascii_digit c = (if 48 \<le> c \<and> c \<le> 57 then Some (c - 48) else None)"

section \<open>The data model\<close>

text \<open>
  A record of the storage layer is the tuple \<^verbatim>\<open>m\<close> that \<^verbatim>\<open>get_all_movies\<close> returns, with
  the columns 0:id, 1:url, 2:pic, 3:title, 4:score, 5:rated, 6:intro, 7:year, 8:country,
  9:category, 10:directors, 11:actors. The code tests \<^verbatim>\<open>len(m)\<close>, so a row is a list of
  cells whose length is not fixed.
\<close>

type_synonym row = "pyval list"

text \<open>
  The value of \<^verbatim>\<open>id_to_meta[movie_id]\<close>: a dictionary with the ten keys below. A field is
  \<open>None\<close> when the key is absent (a dictionary read from a cache file need not have
  all of them).
\<close>

record meta =
  m_title :: "pyval option"
  m_score :: "pyval option"
  m_pic :: "pyval option"
  m_intro :: "pyval option"
  m_url :: "pyval option"
  m_year :: "pyval option"
  m_country :: "pyval option"
  m_category :: "pyval option"
  m_director :: "pyval option"
  m_actor :: "pyval option"

text \<open>
  A Python \<^verbatim>\<open>dict\<close> keeps insertion order and replaces the value of a key that is
  already there: an association list built with \<^const>\<open>AList.update\<close>; \<^verbatim>\<open>len\<close> is its
  length and \<^verbatim>\<open>d[k]\<close> is \<^const>\<open>map_of\<close>.
\<close>

type_synonym meta_dict = "(pyval \<times> meta) list"

text \<open>The \<^verbatim>\<open>filters\<close> dictionary of \<^verbatim>\<open>search\<close>: \<open>None\<close> when the key is absent.\<close>

record filters =
  f_year_min :: "pyval option"
  f_year_max :: "pyval option"
  f_country :: "pyval option"
  f_category :: "pyval option"
  f_director :: "pyval option"
  f_actor :: "pyval option"

definition no_filters :: filters where
  "no_filters = \<lparr>f_year_min = None, f_year_max = None, f_country = None,
     f_category = None, f_director = None, f_actor = None\<rparr>"

text \<open>The dictionaries that \<^verbatim>\<open>search\<close> and \<^verbatim>\<open>search_by_id\<close> return, one per hit.\<close>

record 's search_result =
  r_id :: pyval
  r_title :: pyval
  r_score :: pyval
  r_pic :: pyval
  r_intro :: ustring
  r_url :: pyval
  r_year :: pyval
  r_similarity :: 's

record 's similar_result =
  s_id :: pyval
  s_title :: pyval
  s_score :: pyval
  s_pic :: pyval
  s_intro :: ustring
  s_year :: pyval
  s_similarity :: 's

text \<open>
  The file \<^verbatim>\<open>data/vectors.pkl\<close>: absent, present but not unpicklable, or a pickled
  dictionary. An entry of the dictionary is \<open>None\<close> when its key is missing.
\<close>

record 'v blob =
  b_vectors :: "'v list option"
  b_movie_ids :: "pyval list option"
  b_id_to_meta :: "meta_dict option"

datatype 'v cache_file = NoFile | Unreadable | Pickled "'v blob"

text \<open>The messages the service hands to the logger, in the order of the source.\<close>

datatype log_msg =
    LogLoadingModel
  | LogModelLoaded
  | LogModelFailed
  | LogCacheLoaded
  | LogCacheStale nat nat
  | LogCacheFailed error
  | LogBuilding
  | LogNoValid
  | LogEncoding nat
  | LogBuilt

text \<open>
  The mutable state: the fields of the \<^verbatim>\<open>VectorService\<close> object (\<open>model\<close> is
  \<^verbatim>\<open>self.model is not None\<close>), the cache file on disk, and the log written so far. Rows
  of the matrix \<^verbatim>\<open>self.vectors\<close> are values of an abstract type \<open>'v\<close>.
\<close>

record 'v state =
  model :: bool
  vectors :: "'v list option"
  movie_ids :: "pyval list option"
  id_to_meta :: "meta_dict option"
  cache_file :: "'v cache_file"
  logged :: "log_msg list"

definition init :: "'v cache_file \<Rightarrow> 'v state" where
  "init f = \<lparr>model = False, vectors = None, movie_ids = None, id_to_meta = None,
     cache_file = f, logged = []\<rparr>"

text \<open>
  The collaborators, which the service only calls: the storage layer
  (\<^verbatim>\<open>repo.get_all_movies()\<close>), the encoder (\<^verbatim>\<open>SentenceTransformer(name)\<close> and
  \<^verbatim>\<open>model.encode\<close>), \<^verbatim>\<open>cosine_similarity\<close> of one row against one row (similarities are
  values of an ordered type \<open>'s\<close>), \<^verbatim>\<open>np.argsort\<close>, the rescaling
  \<^verbatim>\<open>round(float(score) * 100, 1)\<close>, whether the cache file can be opened for writing, and
  the decimal-digit table of the regular-expression library.
\<close>

record ('v, 's) env =
  model_name :: ustring
  load_model_ok :: bool
  get_all_movies :: "error + row list"
  encode :: "ustring list \<Rightarrow> error + 'v list"
  cosine :: "'v \<Rightarrow> 'v \<Rightarrow> 's"
  argsort :: "'s list \<Rightarrow> nat list"
  percent :: "'s \<Rightarrow> 's"
  cache_writable :: bool
  decimal_digit :: "nat \<Rightarrow> nat option"

definition add_log :: "log_msg \<Rightarrow> 'v state \<Rightarrow> 'v state" where
  "add_log msg st = st\<lparr>logged := logged st @ [msg]\<rparr>"

section \<open>Building the index\<close>

text \<open>\<^verbatim>\<open>_load_model\<close>: loads the encoder once; a failure is logged and raised again.\<close>

definition load_model :: "('v, 's) env \<Rightarrow> 'v state \<Rightarrow> outcome \<times> 'v state" where
  "load_model env st =
     (if model st then (Returned, st)
      else if load_model_ok env
        then (Returned, add_log LogModelLoaded (add_log LogLoadingModel st\<lparr>model := True\<rparr>))
        else (Raised ModelLoadError, add_log LogModelFailed (add_log LogLoadingModel st)))"

text \<open>
  The test of the list comprehension of line 73,
  \<^verbatim>\<open>m[6] and len(m[6].strip()) > 5\<close>: a short tuple raises \<^verbatim>\<open>IndexError\<close>, and a truthy
  cell that is not a string has no \<^verbatim>\<open>strip\<close>.
\<close>

definition indexable :: "row \<Rightarrow> error + bool" where
  "indexable m =
     (case py_index m 6 of
        Inl e \<Rightarrow> Inl e
      | Inr PNone \<Rightarrow> Inr False
      | Inr (PStr s) \<Rightarrow> Inr (s \<noteq> [] \<and> 5 < length (strip s))
      | Inr (PInt i) \<Rightarrow> (if i = 0 then Inr False else Inl AttributeError))"

fun valid_movies :: "row list \<Rightarrow> error + row list" where
  "valid_movies [] = Inr []"
| "valid_movies (m # ms) =
     (case indexable m of
        Inl e \<Rightarrow> Inl e
      | Inr b \<Rightarrow>
          (case valid_movies ms of
             Inl e \<Rightarrow> Inl e
           | Inr vs \<Rightarrow> Inr (if b then m # vs else vs)))"

text \<open>A loop or comprehension whose body may raise: the first exception ends it.\<close>

fun try_map :: "('a \<Rightarrow> error + 'b) \<Rightarrow> 'a list \<Rightarrow> error + 'b list" where
  "try_map f [] = Inr []"
| "try_map f (x # xs) =
     (case f x of
        Inl e \<Rightarrow> Inl e
      | Inr y \<Rightarrow> (case try_map f xs of Inl e \<Rightarrow> Inl e | Inr ys \<Rightarrow> Inr (y # ys)))"

text \<open>
  Lines 87 to 106: the sentence of one movie. \<^verbatim>\<open>m[7] if len(m) > 7 else ''\<close> is
  \<open>field_or_empty\<close>, and a clause is added only for a truthy field.
\<close>

definition field_or_empty :: "row \<Rightarrow> nat \<Rightarrow> pyval" where
  "field_or_empty m i = (if i < length m then m ! i else PStr [])"

definition clause :: "ustring \<Rightarrow> pyval \<Rightarrow> ustring \<Rightarrow> ustring" where
  "clause pre v post = (if py_truthy v then pre @ py_str v @ post else [])"

definition render :: "row \<Rightarrow> error + ustring" where
  "render m =
     (case py_index m 3 of
        Inl e \<Rightarrow> Inl e
      | Inr title \<Rightarrow>
          (case py_index m 6 of
             Inl e \<Rightarrow> Inl e
           | Inr intro \<Rightarrow>
               Inr ([30005, 24433, 12298] @ py_str title @ [12299]
                 @ clause [20110] (field_or_empty m 7) [24180, 19978, 26144]
                 @ clause [65292, 20135, 22320] (field_or_empty m 8) []
                 @ clause [65292, 31867, 22411, 20026] (field_or_empty m 9) []
                 @ clause [12290, 30001] (field_or_empty m 10) [25191, 23548]
                 @ clause [65292] (field_or_empty m 11) [20027, 28436]
                 @ [12290, 21095, 24773, 31616, 20171, 65306] @ py_str intro)))"

text \<open>
  Lines 111 to 124: one entry of the dictionary comprehension. It reads \<^verbatim>\<open>m[0]\<close> to
  \<^verbatim>\<open>m[11]\<close> without a test of the length, so a tuple of fewer than twelve cells raises.
\<close>

definition meta_entry :: "row \<Rightarrow> error + pyval \<times> meta" where
  "meta_entry m =
     (if length m < 12 then Inl IndexError
      else Inr (m ! 0,
        \<lparr>m_title = Some (m ! 3), m_score = Some (m ! 4), m_pic = Some (m ! 2),
         m_intro = Some (m ! 6), m_url = Some (m ! 1), m_year = Some (m ! 7),
         m_country = Some (m ! 8), m_category = Some (m ! 9),
         m_director = Some (m ! 10), m_actor = Some (m ! 11)\<rparr>))"

fun build_meta :: "row list \<Rightarrow> meta_dict \<Rightarrow> error + meta_dict" where
  "build_meta [] d = Inr d"
| "build_meta (m # ms) d =
     (case meta_entry m of
        Inl e \<Rightarrow> Inl e
      | Inr (k, v) \<Rightarrow> build_meta ms (AList.update k v d))"

text \<open>\<^verbatim>\<open>_save_to_cache\<close> and \<^verbatim>\<open>_load_from_cache\<close>, the latter field by field.\<close>

definition save_to_cache :: "('v, 's) env \<Rightarrow> 'v state \<Rightarrow> outcome \<times> 'v state" where
  "save_to_cache env st =
     (if cache_writable env
      then (Returned, st\<lparr>cache_file := Pickled
              \<lparr>b_vectors = vectors st, b_movie_ids = movie_ids st,
               b_id_to_meta = id_to_meta st\<rparr>\<rparr>)
      else (Raised CacheIOError, st))"

definition load_from_cache :: "'v state \<Rightarrow> outcome \<times> 'v state" where
  "load_from_cache st =
     (case cache_file st of
        NoFile \<Rightarrow> (Raised CacheIOError, st)
      | Unreadable \<Rightarrow> (Raised UnpicklingError, st)
      | Pickled b \<Rightarrow>
          (case b_vectors b of
             None \<Rightarrow> (Raised KeyError, st)
           | Some vs \<Rightarrow>
               (case b_movie_ids b of
                  None \<Rightarrow> (Raised KeyError, st\<lparr>vectors := Some vs\<rparr>)
                | Some ids \<Rightarrow>
                    (case b_id_to_meta b of
                       None \<Rightarrow> (Raised KeyError, st\<lparr>vectors := Some vs, movie_ids := Some ids\<rparr>)
                     | Some mt \<Rightarrow>
                         (Returned, st\<lparr>vectors := Some vs, movie_ids := Some ids,
                            id_to_meta := Some mt\<rparr>)))))"

text \<open>
  Lines 67 to 130 of \<^verbatim>\<open>build_index\<close>, the rebuild proper. The fields are assigned where
  the source assigns them: \<^verbatim>\<open>movie_ids\<close> before the metadata dictionary is computed, both
  before \<^verbatim>\<open>encode\<close> is called, and \<^verbatim>\<open>vectors\<close> before the cache is written.
\<close>

definition rebuild :: "('v, 's) env \<Rightarrow> 'v state \<Rightarrow> outcome \<times> 'v state" where
  "rebuild env st =
     (case load_model env st of
        (Raised e, st1) \<Rightarrow> (Raised e, st1)
      | (Returned, st1) \<Rightarrow>
          (let st2 = add_log LogBuilding st1 in
           case get_all_movies env of
             Inl e \<Rightarrow> (Raised e, st2)
           | Inr movies \<Rightarrow>
               (case valid_movies movies of
                  Inl e \<Rightarrow> (Raised e, st2)
                | Inr valid \<Rightarrow>
                    if valid = [] then (Returned, add_log LogNoValid st2)
                    else
                      (case try_map render valid of
                         Inl e \<Rightarrow> (Raised e, st2)
                       | Inr sentences \<Rightarrow>
                           (case try_map (\<lambda>m. py_index m 0) valid of
                              Inl e \<Rightarrow> (Raised e, st2)
                            | Inr ids \<Rightarrow>
                                (let st3 = st2\<lparr>movie_ids := Some ids\<rparr> in
                                 case build_meta valid [] of
                                   Inl e \<Rightarrow> (Raised e, st3)
                                 | Inr mt \<Rightarrow>
                                     (let st4 = add_log (LogEncoding (length sentences))
                                                  (st3\<lparr>id_to_meta := Some mt\<rparr>) in
                                      case encode env sentences of
                                        Inl e \<Rightarrow> (Raised e, st4)
                                      | Inr vs \<Rightarrow>
                                          (case save_to_cache env (st4\<lparr>vectors := Some vs\<rparr>) of
                                             (Raised e, st5) \<Rightarrow> (Raised e, st5)
                                           | (Returned, st5) \<Rightarrow>
                                               (Returned, add_log LogBuilt st5)))))))))"

text \<open>
  \<^verbatim>\<open>build_index(force_refresh)\<close>. The lock serialises callers; one call runs as below.
  Whatever the attempt to use the cache raises is caught (\<^verbatim>\<open>except Exception\<close>), logged,
  and followed by the rebuild.
\<close>

definition build_index :: "('v, 's) env \<Rightarrow> bool \<Rightarrow> 'v state \<Rightarrow> outcome \<times> 'v state" where
  "build_index env force_refresh st =
     (if \<not> force_refresh \<and> vectors st \<noteq> None then (Returned, st)
      else if \<not> force_refresh \<and> cache_file st \<noteq> NoFile then
        (case load_from_cache st of
           (Raised e, st1) \<Rightarrow> rebuild env (add_log (LogCacheFailed e) st1)
         | (Returned, st1) \<Rightarrow>
             (case get_all_movies env of
                Inl e \<Rightarrow> rebuild env (add_log (LogCacheFailed e) st1)
              | Inr movies \<Rightarrow>
                  (case movie_ids st1 of
                     None \<Rightarrow> rebuild env (add_log (LogCacheFailed TypeError) st1)
                   | Some ids \<Rightarrow>
                       if length ids = length movies
                       then (Returned, add_log LogCacheLoaded st1)
                       else rebuild env
                              (add_log (LogCacheStale (length movies) (length ids)) st1))))
      else rebuild env st)"

section \<open>Searching\<close>

text \<open>\<^verbatim>\<open>meta.get(key, "")\<close> and \<^verbatim>\<open>meta[key]\<close>.\<close>

definition meta_get :: "pyval option \<Rightarrow> pyval" where
  "meta_get v = (case v of None \<Rightarrow> PStr [] | Some x \<Rightarrow> x)"

definition meta_item :: "pyval option \<Rightarrow> error + pyval" where
  "meta_item v = (case v of None \<Rightarrow> Inl KeyError | Some x \<Rightarrow> Inr x)"

text \<open>
  The filters of lines 192 to 214, for one candidate. \<open>Inr True\<close>: every filter was
  passed; \<open>Inr False\<close>: one of them ran \<^verbatim>\<open>continue\<close>; \<open>Inl e\<close>: one of them raised, which
  ends the \<^verbatim>\<open>try\<close> block. \<open>and_then\<close> is the sequencing of two filters.
\<close>

definition and_then :: "error + bool \<Rightarrow> error + bool \<Rightarrow> error + bool" where
  "and_then a b = (case a of Inl e \<Rightarrow> Inl e | Inr False \<Rightarrow> Inr False | Inr True \<Rightarrow> b)"

text \<open>\<^verbatim>\<open>y < bound\<close> and \<^verbatim>\<open>y > bound\<close> for an \<^verbatim>\<open>int\<close> \<open>y\<close>: a bound that is not a number raises.\<close>

definition year_bound :: "(int \<Rightarrow> int \<Rightarrow> bool) \<Rightarrow> int \<Rightarrow> pyval option \<Rightarrow> error + bool" where
  "year_bound outside y bound =
     (case bound of
        None \<Rightarrow> Inr True
      | Some (PInt n) \<Rightarrow> Inr (\<not> outside y n)
      | Some _ \<Rightarrow> Inl TypeError)"

definition year_filter :: "(nat \<Rightarrow> nat option) \<Rightarrow> filters \<Rightarrow> meta \<Rightarrow> error + bool" where
  "year_filter d f mt =
     (if f_year_min f = None \<and> f_year_max f = None then Inr True
      else
        (let y = (case year_match d (py_str (meta_get (m_year mt))) of
                    None \<Rightarrow> 0
                  | Some n \<Rightarrow> int n)
         in and_then (year_bound (<) y (f_year_min f)) (year_bound (>) y (f_year_max f))))"

text \<open>
  \<^verbatim>\<open>if key in filters and filters[key]: if filters[key] not in str(meta.get(key, "")): continue\<close>.
  A truthy filter value that is not a string raises in the \<^verbatim>\<open>in\<close> test.
\<close>

definition substr_filter :: "pyval option \<Rightarrow> pyval option \<Rightarrow> error + bool" where
  "substr_filter wanted field =
     (case wanted of
        None \<Rightarrow> Inr True
      | Some w \<Rightarrow>
          if \<not> py_truthy w then Inr True
          else (case w of
                  PStr s \<Rightarrow> Inr (is_substr s (py_str (meta_get field)))
                | _ \<Rightarrow> Inl TypeError))"

definition apply_filters :: "(nat \<Rightarrow> nat option) \<Rightarrow> filters \<Rightarrow> meta \<Rightarrow> error + bool" where
  "apply_filters d f mt =
     and_then (year_filter d f mt)
       (and_then (substr_filter (f_country f) (m_country mt))
          (and_then (substr_filter (f_category f) (m_category mt))
             (and_then (substr_filter (f_director f) (m_director mt))
                (substr_filter (f_actor f) (m_actor mt)))))"

text \<open>
  \<^verbatim>\<open>meta["intro"][:n] + "..."\<close>: a missing key raises \<^verbatim>\<open>KeyError\<close>, a value that is not a
  string cannot be sliced.
\<close>

definition truncated_intro :: "nat \<Rightarrow> meta \<Rightarrow> error + ustring" where
  "truncated_intro n mt =
     (case m_intro mt of
        None \<Rightarrow> Inl KeyError
      | Some (PStr s) \<Rightarrow> Inr (take n s @ [46, 46, 46])
      | Some _ \<Rightarrow> Inl TypeError)"

text \<open>\<^verbatim>\<open>self.movie_ids[idx]\<close> followed by \<^verbatim>\<open>self.id_to_meta[movie_id]\<close>.\<close>

definition resolve ::
  "pyval list option \<Rightarrow> meta_dict option \<Rightarrow> nat \<Rightarrow> error + pyval \<times> meta" where
  "resolve ids metas idx =
     (case ids of
        None \<Rightarrow> Inl TypeError
      | Some l \<Rightarrow>
          (case py_index l idx of
             Inl e \<Rightarrow> Inl e
           | Inr movie_id \<Rightarrow>
               (case metas of
                  None \<Rightarrow> Inl TypeError
                | Some d \<Rightarrow>
                    (case map_of d movie_id of
                       None \<Rightarrow> Inl KeyError
                     | Some mt \<Rightarrow> Inr (movie_id, mt)))))"

text \<open>The dictionary appended at lines 221 to 230.\<close>

definition search_hit :: "pyval \<Rightarrow> meta \<Rightarrow> 's \<Rightarrow> error + 's search_result" where
  "search_hit movie_id mt score =
     (case meta_item (m_title mt) of
        Inl e \<Rightarrow> Inl e
      | Inr title \<Rightarrow>
          (case meta_item (m_score mt) of
             Inl e \<Rightarrow> Inl e
           | Inr rating \<Rightarrow>
               (case meta_item (m_pic mt) of
                  Inl e \<Rightarrow> Inl e
                | Inr pic \<Rightarrow>
                    (case truncated_intro 100 mt of
                       Inl e \<Rightarrow> Inl e
                     | Inr intro \<Rightarrow>
                         Inr \<lparr>r_id = movie_id, r_title = title, r_score = rating,
                              r_pic = pic, r_intro = intro, r_url = meta_get (m_url mt),
                              r_year = meta_get (m_year mt), r_similarity = score\<rparr>))))"

text \<open>
  The loop of lines 183 to 230 over the sorted indices, with the results gathered so
  far. An exception of the filters is swallowed (\<^verbatim>\<open>except Exception: pass\<close>) and the
  candidate is appended; only \<^verbatim>\<open>continue\<close> skips it.
\<close>

fun scan ::
  "(nat \<Rightarrow> nat option) \<Rightarrow> pyval list option \<Rightarrow> meta_dict option \<Rightarrow> 's list \<Rightarrow> int \<Rightarrow>
   filters \<Rightarrow> nat list \<Rightarrow> 's search_result list \<Rightarrow> error + 's search_result list" where
  "scan d ids metas similarity top_k f [] results = Inr results"
| "scan d ids metas similarity top_k f (idx # rest) results =
     (if top_k \<le> int (length results) then Inr results
      else
        (case py_index similarity idx of
           Inl e \<Rightarrow> Inl e
         | Inr score \<Rightarrow>
             (case resolve ids metas idx of
                Inl e \<Rightarrow> Inl e
              | Inr (movie_id, mt) \<Rightarrow>
                  (case apply_filters d f mt of
                     Inr False \<Rightarrow> scan d ids metas similarity top_k f rest results
                   | _ \<Rightarrow>
                       (case search_hit movie_id mt score of
                          Inl e \<Rightarrow> Inl e
                        | Inr hit \<Rightarrow>
                            scan d ids metas similarity top_k f rest (results @ [hit]))))))"

text \<open>The instruction that is put before the query for a \<^verbatim>\<open>bge\<close> model (line 171).\<close>

definition query_instruction :: ustring where
  "query_instruction = [20026, 36825, 20010, 21477, 23376, 29983, 25104, 34920, 31034,
     20197, 29992, 20110, 26816, 32034, 30456, 20851, 25991, 31456, 65306]"

definition query_text :: "('v, 's) env \<Rightarrow> ustring \<Rightarrow> ustring" where
  "query_text env query =
     (if is_substr [98, 103, 101] (py_lower (model_name env))
      then query_instruction @ query else query)"

text \<open>
  The first two lines of both queries: \<^verbatim>\<open>if self.vectors is None: self.build_index()\<close>.
\<close>

definition ensure_index :: "('v, 's) env \<Rightarrow> 'v state \<Rightarrow> outcome \<times> 'v state" where
  "ensure_index env st =
     (if vectors st = None then build_index env False st else (Returned, st))"

text \<open>\<^verbatim>\<open>filters = filters or {}\<close> (line 181): \<^verbatim>\<open>None\<close> is the empty dictionary.\<close>

definition the_filters :: "filters option \<Rightarrow> filters" where
  "the_filters fo = (case fo of None \<Rightarrow> no_filters | Some f \<Rightarrow> f)"

text \<open>
  \<^verbatim>\<open>search(query, top_k, filters)\<close>. The result is the returned list or the exception
  raised, with the state the call leaves.
\<close>

definition search ::
  "('v, 's) env \<Rightarrow> 'v state \<Rightarrow> ustring \<Rightarrow> int \<Rightarrow> filters option \<Rightarrow>
   (error + 's search_result list) \<times> 'v state" where
  "search env st query top_k filters =
     (case ensure_index env st of
        (Raised e, st1) \<Rightarrow> (Inl e, st1)
      | (Returned, st1) \<Rightarrow>
          (case vectors st1 of
             None \<Rightarrow> (Inr [], st1)
           | Some vs \<Rightarrow>
               if length vs = 0 then (Inr [], st1)
               else
                 (case load_model env st1 of
                    (Raised e, st2) \<Rightarrow> (Inl e, st2)
                  | (Returned, st2) \<Rightarrow>
                      (case encode env [query_text env query] of
                         Inl e \<Rightarrow> (Inl e, st2)
                       | Inr [] \<Rightarrow> (Inl ValueError, st2)
                       | Inr (query_vec # _) \<Rightarrow>
                           (let similarity = map (cosine env query_vec) vs;
                                sorted_indices = rev (argsort env similarity)
                            in (scan (decimal_digit env) (movie_ids st2) (id_to_meta st2)
                                  similarity top_k
                                  (the_filters filters)
                                  sorted_indices [], st2))))))"

text \<open>\<^verbatim>\<open>self.movie_ids.index(movie_id)\<close>, called only for a member of the list.\<close>

fun index_of :: "'a list \<Rightarrow> 'a \<Rightarrow> nat" where
  "index_of [] x = 0"
| "index_of (y # ys) x = (if y = x then 0 else Suc (index_of ys x))"

text \<open>The dictionary appended at lines 266 to 282.\<close>

definition similar_hit ::
  "('v, 's) env \<Rightarrow> pyval list option \<Rightarrow> meta_dict option \<Rightarrow> 's list \<Rightarrow> nat \<Rightarrow>
   error + 's similar_result" where
  "similar_hit env ids metas similarity i =
     (case py_index similarity i of
        Inl e \<Rightarrow> Inl e
      | Inr score \<Rightarrow>
          (case resolve ids metas i of
             Inl e \<Rightarrow> Inl e
           | Inr (mid, mt) \<Rightarrow>
               (case meta_item (m_title mt) of
                  Inl e \<Rightarrow> Inl e
                | Inr title \<Rightarrow>
                    (case meta_item (m_score mt) of
                       Inl e \<Rightarrow> Inl e
                     | Inr rating \<Rightarrow>
                         (case meta_item (m_pic mt) of
                            Inl e \<Rightarrow> Inl e
                          | Inr pic \<Rightarrow>
                              (case truncated_intro 60 mt of
                                 Inl e \<Rightarrow> Inl e
                               | Inr intro \<Rightarrow>
                                   Inr \<lparr>s_id = mid, s_title = title, s_score = rating,
                                        s_pic = pic, s_intro = intro,
                                        s_year = meta_get (m_year mt),
                                        s_similarity = percent env score\<rparr>))))))"

text \<open>
  \<^verbatim>\<open>search_by_id(movie_id, top_k)\<close>. \<^verbatim>\<open>movie_id not in self.movie_ids\<close> raises
  \<^verbatim>\<open>TypeError\<close> when \<^verbatim>\<open>self.movie_ids\<close> is \<^verbatim>\<open>None\<close>; the own row is left out by the slice
  \<^verbatim>\<open>[1 : top_k + 1]\<close> of the indices sorted by descending similarity.
\<close>

definition search_by_id ::
  "('v, 's) env \<Rightarrow> 'v state \<Rightarrow> pyval \<Rightarrow> int \<Rightarrow>
   (error + 's similar_result list) \<times> 'v state" where
  "search_by_id env st movie_id top_k =
     (case ensure_index env st of
        (Raised e, st1) \<Rightarrow> (Inl e, st1)
      | (Returned, st1) \<Rightarrow>
          (case movie_ids st1 of
             None \<Rightarrow> (Inl TypeError, st1)
           | Some ids \<Rightarrow>
               if movie_id \<notin> set ids then (Inr [], st1)
               else
                 (case vectors st1 of
                    None \<Rightarrow> (Inl TypeError, st1)
                  | Some vs \<Rightarrow>
                      (case py_index vs (index_of ids movie_id) of
                         Inl e \<Rightarrow> (Inl e, st1)
                       | Inr target_vec \<Rightarrow>
                           (let similarity = map (cosine env target_vec) vs;
                                top_indices =
                                  py_slice (rev (argsort env similarity)) 1 (top_k + 1)
                            in (try_map (similar_hit env (movie_ids st1) (id_to_meta st1)
                                           similarity) top_indices, st1))))))"

text \<open>
  What \<^verbatim>\<open>np.argsort\<close> guarantees: a permutation of the positions that lists the values in
  ascending order. The order among equal values is not part of the guarantee. The
  stable sort below is one such function (it is what NumPy runs on short arrays).
\<close>

definition argsort_ok :: "('s::linorder list \<Rightarrow> nat list) \<Rightarrow> bool" where
  "argsort_ok srt =
     (\<forall>xs. distinct (srt xs) \<and> set (srt xs) = {..<length xs}
           \<and> sorted (map ((!) xs) (srt xs)))"

definition stable_argsort :: "'s::linorder list \<Rightarrow> nat list" where
  "stable_argsort xs = sort_key ((!) xs) [0..<length xs]"

text \<open>What the encoder guarantees: one row for each sentence of the batch.\<close>

definition encoder_ok :: "(ustring list \<Rightarrow> error + 'v list) \<Rightarrow> bool" where
  "encoder_ok enc = (\<forall>ss vs. enc ss = Inr vs \<longrightarrow> length vs = length ss)"

section \<open>Predicates of the specification and sample inputs\<close>

text \<open>
  The number of rebuilds that ran to their end, and the number that were started, read
  off the log: the messages of lines 130 and 69.
\<close>

definition builds_done :: "'v state \<Rightarrow> nat" where
  "builds_done st = count_list (logged st) LogBuilt"

definition builds_started :: "'v state \<Rightarrow> nat" where
  "builds_started st = count_list (logged st) LogBuilding"

text \<open>
  Indexable as the specification words it: the description, after trimming whitespace,
  has length greater than 5 characters.
\<close>

definition spec_indexable :: "row \<Rightarrow> bool" where
  "spec_indexable m = (case m ! 6 of PStr s \<Rightarrow> 5 < length (strip s) | _ \<Rightarrow> False)"

text \<open>
  Sample inputs. Four records: two with the same title and the same description
  \<^verbatim>\<open>hello world\<close> (11 characters) under different identifiers, one whose description
  \<^verbatim>\<open>"  abc  "\<close> is 3 characters long once trimmed, and one with the description
  \<^verbatim>\<open>war film\<close>. The sample encoder maps a sentence of even length to the unit vector
  \<open>[1, 0]\<close> and one of odd length to \<open>[0, 1]\<close>; on unit vectors the cosine similarity
  is the dot product.
\<close>

definition demo_row :: "int \<Rightarrow> ustring \<Rightarrow> ustring \<Rightarrow> ustring \<Rightarrow> row" where
  "demo_row i title intro year =
     [PInt i, PStr [117], PStr [112], PStr title, PInt 9, PStr [], PStr intro,
      PStr year, PStr [67, 78], PStr [], PStr [], PStr []]"

definition hello_world :: ustring where
  "hello_world = [104, 101, 108, 108, 111, 32, 119, 111, 114, 108, 100]"

definition demo_movies :: "row list" where
  "demo_movies =
     [demo_row 1 [65] hello_world [49, 57, 57, 52],
      demo_row 2 [65] hello_world [49, 57, 57, 52],
      demo_row 3 [66] [32, 32, 97, 98, 99, 32, 32] [50, 48, 48, 48],
      demo_row 4 [67] [119, 97, 114, 32, 102, 105, 108, 109] [49, 57, 57, 57]]"

definition demo_env :: "(int list, int) env" where
  "demo_env = \<lparr>model_name = [98, 103, 101], load_model_ok = True,
     get_all_movies = Inr demo_movies,
     encode = (\<lambda>ss. Inr (map (\<lambda>s. if even (length s) then [1, 0] else [0, 1]) ss)),
     cosine = (\<lambda>a b. sum_list (map2 (*) a b)),
     argsort = stable_argsort,
     percent = (\<lambda>s. s * 100),
     cache_writable = True,
     decimal_digit = ascii_digit\<rparr>"

definition demo_meta :: "ustring \<Rightarrow> ustring \<Rightarrow> ustring \<Rightarrow> meta" where
  "demo_meta title intro year =
     \<lparr>m_title = Some (PStr title), m_score = Some (PInt 9), m_pic = Some (PStr [112]),
      m_intro = Some (PStr intro), m_url = Some (PStr [117]), m_year = Some (PStr year),
      m_country = Some (PStr [67, 78]), m_category = Some (PStr []),
      m_director = Some (PStr []), m_actor = Some (PStr [])\<rparr>"

definition demo_blob :: "int list blob" where
  "demo_blob = \<lparr>b_vectors = Some [[0, 1], [0, 1], [1, 0]],
     b_movie_ids = Some [PInt 1, PInt 2, PInt 4],
     b_id_to_meta = Some [(PInt 1, demo_meta [65] hello_world [49, 57, 57, 52]),
        (PInt 2, demo_meta [65] hello_world [49, 57, 57, 52]),
        (PInt 4, demo_meta [67] [119, 97, 114, 32, 102, 105, 108, 109] [49, 57, 57, 57])]\<rparr>"

definition demo_state :: "int list state" where
  "demo_state = \<lparr>model = True, vectors = b_vectors demo_blob,
     movie_ids = b_movie_ids demo_blob, id_to_meta = b_id_to_meta demo_blob,
     cache_file = Pickled demo_blob,
     logged = [LogLoadingModel, LogModelLoaded, LogBuilding, LogEncoding 3, LogBuilt]\<rparr>"

text \<open>A generation with a single record.\<close>

definition single_state :: "int list state" where
  "single_state = \<lparr>model = True, vectors = Some [[0, 1]], movie_ids = Some [PInt 1],
     id_to_meta = Some [(PInt 1, demo_meta [65] hello_world [49, 57, 57, 52])],
     cache_file = NoFile, logged = []\<rparr>"

text \<open>
  Variations of the sample: a storage layer whose only record has a description of 3
  characters once trimmed; one with a fifth record and an encoder whose batch call
  raises; and one that holds exactly the three indexable records.
\<close>

definition short_env :: "(int list, int) env" where
  "short_env = demo_env\<lparr>get_all_movies := Inr [demo_movies ! 2]\<rparr>"

definition failing_env :: "(int list, int) env" where
  "failing_env = demo_env\<lparr>
     get_all_movies := Inr (demo_movies @ [demo_row 5 [68] hello_world [50, 48, 50, 48]]),
     encode := (\<lambda>ss. Inl EncodeError)\<rparr>"

definition adopt_env :: "(int list, int) env" where
  "adopt_env = demo_env\<lparr>get_all_movies :=
     Inr [demo_movies ! 0, demo_movies ! 1, demo_movies ! 3]\<rparr>"

text \<open>
  The fail-open policy as the specification words it: a candidate passes when its
  filters are evaluated to true, and also when evaluating them raises. \<open>kept\<close> is
  the policy for the candidate at row \<open>i\<close> of a generation.
\<close>

definition passes :: "(nat \<Rightarrow> nat option) \<Rightarrow> filters \<Rightarrow> meta \<Rightarrow> bool" where
  "passes d f mt = (case apply_filters d f mt of Inl e \<Rightarrow> True | Inr b \<Rightarrow> b)"

definition kept ::
  "(nat \<Rightarrow> nat option) \<Rightarrow> filters \<Rightarrow> pyval list option \<Rightarrow> meta_dict option \<Rightarrow> nat \<Rightarrow> bool" where
  "kept d f ids metas i =
     (case resolve ids metas i of Inl e \<Rightarrow> False | Inr (movie_id, mt) \<Rightarrow> passes d f mt)"

text \<open>
  A metadata dictionary from which a result can be made: title, score and picture are
  present and the description is a string (as for every record the build indexes).
\<close>

definition displayable :: "meta \<Rightarrow> bool" where
  "displayable mt =
     (m_title mt \<noteq> None \<and> m_score mt \<noteq> None \<and> m_pic mt \<noteq> None
      \<and> (case m_intro mt of Some (PStr s) \<Rightarrow> True | _ \<Rightarrow> False))"

text \<open>
  The number of entries of the active generation (rows of the matrix), and the number
  of them that pass the filters.
\<close>

definition entries :: "'v state \<Rightarrow> nat" where
  "entries st = (case vectors st of None \<Rightarrow> 0 | Some vs \<Rightarrow> length vs)"

definition entries_passing :: "(nat \<Rightarrow> nat option) \<Rightarrow> filters \<Rightarrow> 'v state \<Rightarrow> nat" where
  "entries_passing d f st =
     length (filter (kept d f (movie_ids st) (id_to_meta st)) [0..<entries st])"

text \<open>
  Two filter dictionaries for the sample: \<^verbatim>\<open>{"year_min": "2000"}\<close>, whose bound is a string
  and makes the comparison with the year raise, and \<^verbatim>\<open>{"year_min": 2000}\<close>.
\<close>

definition fault_filters :: filters where
  "fault_filters = no_filters\<lparr>f_year_min := Some (PStr [50, 48, 48, 48])\<rparr>"

definition year_filters :: filters where
  "year_filters = no_filters\<lparr>f_year_min := Some (PInt 2000)\<rparr>"

text \<open>
  The test of lines 54 to 61 on a service without a generation: the cache file
  unpickles with its three entries, the storage layer answers, and the identifier
  count of the file equals the number of stored records.
\<close>

definition cache_adopted :: "('v, 's) env \<Rightarrow> 'v state \<Rightarrow> bool" where
  "cache_adopted env st =
     (case cache_file st of
        Pickled b \<Rightarrow>
          (case b_vectors b of
             None \<Rightarrow> False
           | Some vs \<Rightarrow>
               (case b_movie_ids b of
                  None \<Rightarrow> False
                | Some ids \<Rightarrow>
                    (case b_id_to_meta b of
                       None \<Rightarrow> False
                     | Some mt \<Rightarrow>
                         (case get_all_movies env of
                            Inl e \<Rightarrow> False
                          | Inr movies \<Rightarrow> length ids = length movies))))
      | _ \<Rightarrow> False)"

section \<open>Auxiliary lemmas\<close>

lemma stable_argsort_ok: "argsort_ok (stable_argsort :: 's::linorder list \<Rightarrow> nat list)"
  unfolding argsort_ok_def stable_argsort_def
  by auto

lemma argsort_ok_length: "argsort_ok srt \<Longrightarrow> length (srt xs) = length xs"
proof -
  assume "argsort_ok srt"
  then have d: "distinct (srt xs)" and s: "set (srt xs) = {..<length xs}"
    by (simp_all add: argsort_ok_def)
  from d have "length (srt xs) = card (set (srt xs))"
    by (simp add: distinct_card)
  with s show ?thesis by simp
qed

lemma argsort_ok_singleton: "argsort_ok srt \<Longrightarrow> srt [x] = [0]"
proof -
  assume ok: "argsort_ok srt"
  then have l: "length (srt [x]) = 1" by (simp add: argsort_ok_length)
  from ok have s: "set (srt [x]) = {..<1}" by (simp add: argsort_ok_def)
  from l obtain i where i: "srt [x] = [i]"
    by (cases "srt [x]") auto
  with s show ?thesis by auto
qed

lemma py_slice_singleton_from_1: "py_slice [x] 1 stop = []"
  by (simp add: py_slice_def Let_def)

lemma ensure_index_present: "vectors st = Some vs \<Longrightarrow> ensure_index env st = (Returned, st)"
  by (simp add: ensure_index_def)

lemma builds_done_add_log [simp]:
  "builds_done (add_log msg st) = builds_done st + (if msg = LogBuilt then 1 else 0)"
  by (simp add: builds_done_def add_log_def)

lemma builds_done_upd [simp]:
  "builds_done (st\<lparr>model := a\<rparr>) = builds_done st"
  "builds_done (st\<lparr>vectors := b\<rparr>) = builds_done st"
  "builds_done (st\<lparr>movie_ids := c\<rparr>) = builds_done st"
  "builds_done (st\<lparr>id_to_meta := d\<rparr>) = builds_done st"
  "builds_done (st\<lparr>cache_file := e\<rparr>) = builds_done st"
  by (simp_all add: builds_done_def)

lemma load_model_builds_done:
  "load_model env st = (out, st1) \<Longrightarrow> builds_done st1 = builds_done st"
  by (auto simp: load_model_def split: if_splits)

lemma load_model_fields:
  "load_model env st = (out, st1) \<Longrightarrow>
     vectors st1 = vectors st \<and> movie_ids st1 = movie_ids st \<and> id_to_meta st1 = id_to_meta st
     \<and> cache_file st1 = cache_file st"
  by (auto simp: load_model_def add_log_def split: if_splits)

text \<open>
  A rebuild either leaves the count of finished builds alone, or it returns with the
  three fields freshly computed from the records of the storage layer.
\<close>

lemma rebuild_cases:
  assumes "rebuild env st = (out, st')"
  shows "builds_done st' = builds_done st
       \<or> (out = Returned \<and> builds_done st' = Suc (builds_done st) \<and>
          (\<exists>movies valid sentences ids mt vs.
             get_all_movies env = Inr movies \<and> valid_movies movies = Inr valid \<and> valid \<noteq> []
           \<and> try_map render valid = Inr sentences
           \<and> try_map (\<lambda>m. py_index m 0) valid = Inr ids
           \<and> build_meta valid [] = Inr mt \<and> encode env sentences = Inr vs
           \<and> vectors st' = Some vs \<and> movie_ids st' = Some ids \<and> id_to_meta st' = Some mt))"
proof (cases "load_model env st")
  case (Pair o1 st1)
  note lm = load_model_builds_done[OF Pair]
  show ?thesis
    using assms Pair lm
    by (auto simp: rebuild_def Let_def save_to_cache_def add_log_def builds_done_def
        split: outcome.splits sum.splits if_splits)
qed

lemma try_map_length: "try_map f xs = Inr ys \<Longrightarrow> length ys = length xs"
  by (induction xs arbitrary: ys) (auto split: sum.splits)

lemma try_map_map: "try_map f xs = Inr ys \<Longrightarrow> map Inr ys = map f xs"
  by (induction xs arbitrary: ys) (auto split: sum.splits)

lemma strip_Nil [simp]: "strip [] = []"
  by (simp add: strip_def)

lemma indexable_described:
  assumes "6 < length m" and "case m ! 6 of PInt i \<Rightarrow> False | _ \<Rightarrow> True"
  shows "indexable m = Inr (spec_indexable m)"
  using assms
  by (auto simp: indexable_def spec_indexable_def py_index_def split: pyval.splits)

lemma valid_movies_filter:
  "valid_movies movies = Inr valid \<Longrightarrow> valid = filter (\<lambda>m. indexable m = Inr True) movies"
  by (induction movies arbitrary: valid) (auto split: sum.splits if_splits)

lemma valid_movies_described:
  assumes "\<forall>m\<in>set movies. 6 < length m \<and> (case m ! 6 of PInt i \<Rightarrow> False | _ \<Rightarrow> True)"
  shows "valid_movies movies = Inr (filter spec_indexable movies)"
  using assms
  by (induction movies) (auto simp: indexable_described)

lemma load_from_cache_builds_done:
  "load_from_cache st = (out, st1) \<Longrightarrow> builds_done st1 = builds_done st"
  by (auto simp: load_from_cache_def split: cache_file.splits option.splits)

lemma meta_entry_key: "meta_entry m = Inr (k, v) \<Longrightarrow> py_index m 0 = Inr k"
  by (auto simp: meta_entry_def py_index_def split: if_splits)

lemma build_meta_keys:
  "build_meta ms d = Inr mt \<Longrightarrow> try_map (\<lambda>m. py_index m 0) ms = Inr ids \<Longrightarrow>
     fst ` set mt = fst ` set d \<union> set ids"
proof (induction ms arbitrary: d ids)
  case Nil
  then show ?case by simp
next
  case (Cons m ms)
  from Cons.prems obtain k v where e: "meta_entry m = Inr (k, v)"
    and b: "build_meta ms (AList.update k v d) = Inr mt"
    by (auto split: sum.splits)
  from Cons.prems meta_entry_key[OF e] obtain ids' where i: "ids = k # ids'"
    and t: "try_map (\<lambda>m. py_index m 0) ms = Inr ids'"
    by (auto split: sum.splits)
  from Cons.IH[OF b t] show ?case
    by (simp add: i dom_update)
qed

lemma build_meta_distinct:
  "build_meta ms d = Inr mt \<Longrightarrow> distinct (map fst d) \<Longrightarrow> distinct (map fst mt)"
  by (induction ms arbitrary: d) (auto simp: distinct_update split: sum.splits)

lemma build_meta_length:
  assumes "build_meta ms [] = Inr mt" and "try_map (\<lambda>m. py_index m 0) ms = Inr ids"
    and "distinct ids"
  shows "length mt = length ids"
proof -
  from build_meta_distinct[OF assms(1)] have "distinct (map fst mt)" by simp
  from distinct_card[OF this] have "length mt = card (fst ` set mt)" by simp
  also have "\<dots> = card (set ids)"
    using build_meta_keys[OF assms(1,2)] by simp
  also have "\<dots> = length ids"
    using assms(3) by (simp add: distinct_card)
  finally show ?thesis .
qed

lemma distinct_ids_of_valid:
  assumes "valid_movies movies = Inr valid"
    and "distinct (map (\<lambda>m. py_index m 0) movies)"
    and "try_map (\<lambda>m. py_index m 0) valid = Inr ids"
  shows "distinct ids"
proof -
  from valid_movies_filter[OF assms(1)] assms(2)
  have "distinct (map (\<lambda>m. py_index m 0) valid)"
    by (simp add: distinct_map_filter)
  with try_map_map[OF assms(3)] have "distinct (map Inr ids :: (error + pyval) list)"
    by simp
  then show ?thesis by (simp add: distinct_map)
qed

lemma build_index_cases:
  assumes "build_index env force st = (out, st')"
  shows "builds_done st' = builds_done st
       \<or> (out = Returned \<and> builds_done st' = Suc (builds_done st) \<and>
          (\<exists>movies valid sentences ids mt vs.
             get_all_movies env = Inr movies \<and> valid_movies movies = Inr valid \<and> valid \<noteq> []
           \<and> try_map render valid = Inr sentences
           \<and> try_map (\<lambda>m. py_index m 0) valid = Inr ids
           \<and> build_meta valid [] = Inr mt \<and> encode env sentences = Inr vs
           \<and> vectors st' = Some vs \<and> movie_ids st' = Some ids \<and> id_to_meta st' = Some mt))"
proof -
  consider (noop) "out = Returned" "st' = st"
    | (adopt) st1 where "load_from_cache st = (Returned, st1)" "st' = add_log LogCacheLoaded st1"
    | (rebuilt) st0 where "builds_done st0 = builds_done st" "rebuild env st0 = (out, st')"
  proof (cases "\<not> force \<and> vectors st \<noteq> None")
    case True
    with assms show ?thesis by (intro noop) (auto simp: build_index_def)
  next
    case nf: False
    show ?thesis
    proof (cases "\<not> force \<and> cache_file st \<noteq> NoFile")
      case False
      with nf assms have "rebuild env st = (out, st')"
        by (auto simp: build_index_def)
      then show ?thesis by (intro rebuilt[of st]) simp_all
    next
      case c: True
      obtain o1 st1 where l: "load_from_cache st = (o1, st1)" by (cases "load_from_cache st")
      note bd = load_from_cache_builds_done[OF l]
      show ?thesis
      proof (cases "\<exists>ids movies. o1 = Returned \<and> get_all_movies env = Inr movies
                       \<and> movie_ids st1 = Some ids \<and> length ids = length movies")
        case True
        with nf c l assms show ?thesis
          by (intro adopt[of st1]) (auto simp: build_index_def)
      next
        case False
        with nf c l assms obtain msg where "msg \<noteq> LogBuilt" "rebuild env (add_log msg st1) = (out, st')"
          by (auto simp: build_index_def split: outcome.splits sum.splits option.splits if_splits)
        with bd show ?thesis by (intro rebuilt[of "add_log msg st1"]) simp_all
      qed
    qed
  qed
  then show ?thesis
  proof cases
    case noop
    then show ?thesis by simp
  next
    case (adopt st1)
    then show ?thesis using load_from_cache_builds_done[OF adopt(1)] by simp
  next
    case (rebuilt st0)
    from rebuild_cases[OF rebuilt(2)] rebuilt(1) show ?thesis by simp
  qed
qed

lemmas demo_defs = demo_env_def demo_movies_def demo_row_def hello_world_def demo_state_def
  demo_blob_def demo_meta_def init_def

lemmas build_defs = build_index_def rebuild_def load_model_def add_log_def indexable_def
  py_index_def strip_def is_space_def render_def clause_def field_or_empty_def meta_entry_def
  save_to_cache_def load_from_cache_def

lemma demo_build: "build_index demo_env True (init NoFile) = (Returned, demo_state)"
  by (simp add: demo_defs build_defs)

lemma demo_encoder_ok: "encoder_ok (encode demo_env)"
  by (auto simp: encoder_ok_def demo_env_def)

lemma demo_argsort_ok: "argsort_ok (argsort demo_env)"
  by (simp add: demo_env_def stable_argsort_ok)

lemma demo_ids_distinct: "distinct (map (\<lambda>m. py_index m 0) demo_movies)"
  by (simp add: demo_defs py_index_def)

lemma demo_described:
  "\<forall>m\<in>set demo_movies. 6 < length m \<and> (case m ! 6 of PInt i \<Rightarrow> False | _ \<Rightarrow> True)"
  by (simp add: demo_defs)

lemmas search_defs = search_by_id_def search_def ensure_index_def similar_hit_def resolve_def
  meta_item_def meta_get_def truncated_intro_def py_slice_def stable_argsort_def

lemma builds_started_add_log [simp]:
  "builds_started (add_log msg st) = builds_started st + (if msg = LogBuilding then 1 else 0)"
  by (simp add: builds_started_def add_log_def)

lemma builds_started_upd [simp]:
  "builds_started (st\<lparr>model := a\<rparr>) = builds_started st"
  "builds_started (st\<lparr>vectors := b\<rparr>) = builds_started st"
  "builds_started (st\<lparr>movie_ids := c\<rparr>) = builds_started st"
  "builds_started (st\<lparr>id_to_meta := d\<rparr>) = builds_started st"
  "builds_started (st\<lparr>cache_file := e\<rparr>) = builds_started st"
  by (simp_all add: builds_started_def)

lemma load_model_cases:
  "load_model env st = (out, st1) \<Longrightarrow>
     builds_started st1 = builds_started st
     \<and> (if model st \<or> load_model_ok env then out = Returned else out = Raised ModelLoadError)"
  by (auto simp: load_model_def split: if_splits)

lemma rebuild_builds_started:
  assumes "rebuild env st = (out, st')"
  shows "if model st \<or> load_model_ok env
         then builds_started st' = Suc (builds_started st)
         else builds_started st' = builds_started st \<and> out = Raised ModelLoadError"
proof (cases "load_model env st")
  case (Pair o1 st1)
  from load_model_cases[OF Pair] assms Pair show ?thesis
    by (auto simp: rebuild_def Let_def save_to_cache_def
        split: outcome.splits sum.splits if_splits)
qed

lemma build_index_forced: "build_index env True st = rebuild env st"
  by (simp add: build_index_def)

lemma build_index_cold: 
  "vectors st = None \<Longrightarrow> cache_file st = NoFile \<Longrightarrow> build_index env False st = rebuild env st"
  by (simp add: build_index_def)

lemma rebuild_outcome_model:
  "model st = model st' \<Longrightarrow> fst (rebuild env st) = fst (rebuild env st')"
  by (simp add: rebuild_def load_model_def add_log_def save_to_cache_def Let_def
      split: sum.splits)

lemma load_from_cache_model: "load_from_cache st = (out, st1) \<Longrightarrow> model st1 = model st"
  by (auto simp: load_from_cache_def split: cache_file.splits option.splits)

lemma scan_bounds:
  "scan d ids metas sim k f idxs results = Inr out \<Longrightarrow>
     length out \<le> max (nat k) (length results)
     \<and> length out \<le> length results + length (filter (kept d f ids metas) idxs)"
proof (induction idxs arbitrary: results)
  case Nil
  then show ?case by simp
next
  case (Cons idx rest)
  show ?case
  proof (cases "k \<le> int (length results)")
    case True
    with Cons.prems show ?thesis by simp
  next
    case False
    with Cons.prems obtain score movie_id mt where
      r: "resolve ids metas idx = Inr (movie_id, mt)" and s: "py_index sim idx = Inr score"
      by (auto split: sum.splits)
    show ?thesis
    proof (cases "apply_filters d f mt = Inr False")
      case True
      with Cons.prems False r s have "scan d ids metas sim k f rest results = Inr out"
        by simp
      from Cons.IH[OF this] show ?thesis by simp
    next
      case nf: False
      with Cons.prems False r s obtain hit where
        h: "scan d ids metas sim k f rest (results @ [hit]) = Inr out"
        by (auto split: sum.splits bool.splits)
      from nf have "kept d f ids metas idx"
        by (auto simp: kept_def passes_def r split: sum.splits)
      with Cons.IH[OF h] False show ?thesis by auto
    qed
  qed
qed

lemma search_hit_displayable:
  "displayable mt \<Longrightarrow> \<exists>hit. search_hit movie_id mt score = Inr hit \<and> r_id hit = movie_id"
  by (auto simp: displayable_def search_hit_def meta_item_def truncated_intro_def
      split: option.splits pyval.splits)


lemma scan_Cons_stop:
  "k \<le> int (length results) \<Longrightarrow> scan d ids metas sim k f (idx # rest) results = Inr results"
  by simp

lemma scan_Cons_reject:
  assumes "\<not> k \<le> int (length results)" and "py_index sim idx = Inr score"
    and "resolve ids metas idx = Inr (mid, mt)" and "apply_filters d f mt = Inr False"
  shows "scan d ids metas sim k f (idx # rest) results = scan d ids metas sim k f rest results"
  using assms by simp

lemma scan_Cons_keep:
  assumes "\<not> k \<le> int (length results)" and "py_index sim idx = Inr score"
    and "resolve ids metas idx = Inr (mid, mt)" and "apply_filters d f mt \<noteq> Inr False"
    and "search_hit mid mt score = Inr hit"
  shows "scan d ids metas sim k f (idx # rest) results
         = scan d ids metas sim k f rest (results @ [hit])"
proof (cases "apply_filters d f mt")
  case (Inl e)
  with assms show ?thesis by simp
next
  case (Inr b)
  with assms(4) have "b" by simp
  with Inr assms show ?thesis by simp
qed

lemma kept_iff:
  "resolve ids metas i = Inr (mid, mt) \<Longrightarrow> kept d f ids metas i = (apply_filters d f mt \<noteq> Inr False)"
  by (cases "apply_filters d f mt") (simp_all add: kept_def passes_def)

lemma scan_fail_open:
  assumes "\<forall>i\<in>set idxs. i < length sim
             \<and> (\<exists>mt. resolve (Some ids) metas i = Inr (ids ! i, mt) \<and> displayable mt)"
  shows "\<exists>hits. scan d (Some ids) metas sim k f idxs results = Inr (results @ hits)
           \<and> map r_id hits
             = map ((!) ids) (take (nat k - length results)
                 (filter (kept d f (Some ids) metas) idxs))"
  using assms
proof (induction idxs arbitrary: results)
  case Nil
  then show ?case by simp
next
  case (Cons idx rest)
  show ?case
  proof (cases "k \<le> int (length results)")
    case True
    then have z: "nat k - length results = 0" by simp
    show ?thesis
      unfolding scan_Cons_stop[OF True] z by simp
  next
    case False
    from Cons.prems have "idx < length sim" by simp
    then have s: "py_index sim idx = Inr (sim ! idx)"
      by (simp add: py_index_def)
    from Cons.prems obtain mt where
      r: "resolve (Some ids) metas idx = Inr (ids ! idx, mt)" and dm: "displayable mt"
      by auto
    from Cons.prems have rest: "\<forall>i\<in>set rest. i < length sim
             \<and> (\<exists>mt. resolve (Some ids) metas i = Inr (ids ! i, mt) \<and> displayable mt)"
      by simp
    show ?thesis
    proof (cases "apply_filters d f mt = Inr False")
      case True
      with kept_iff[OF r] have nk: "\<not> kept d f (Some ids) metas idx"
        by simp
      from Cons.IH[OF rest, of results] obtain hits where
        1: "scan d (Some ids) metas sim k f rest results = Inr (results @ hits)"
        and 2: "map r_id hits = map ((!) ids) (take (nat k - length results)
                 (filter (kept d f (Some ids) metas) rest))"
        by blast
      from nk have fl: "filter (kept d f (Some ids) metas) (idx # rest)
                    = filter (kept d f (Some ids) metas) rest"
        by simp
      show ?thesis
        unfolding scan_Cons_reject[OF False s r True] fl using 1 2 by blast
    next
      case nf: False
      with kept_iff[OF r] have k: "kept d f (Some ids) metas idx"
        by simp
      from search_hit_displayable[OF dm, of "ids ! idx" "sim ! idx"] obtain hit where
        h: "search_hit (ids ! idx) mt (sim ! idx) = Inr hit" and hid: "r_id hit = ids ! idx"
        by blast
      note step = scan_Cons_keep[OF False s r nf h]
      from Cons.IH[OF rest, of "results @ [hit]"] obtain hits where
        1: "scan d (Some ids) metas sim k f rest (results @ [hit]) = Inr ((results @ [hit]) @ hits)"
        and 2: "map r_id hits = map ((!) ids) (take (nat k - length (results @ [hit]))
                 (filter (kept d f (Some ids) metas) rest))"
        by blast
      from False have n: "nat k - length results = Suc (nat k - length (results @ [hit]))"
        by simp
      from k have fl: "filter (kept d f (Some ids) metas) (idx # rest)
                    = idx # filter (kept d f (Some ids) metas) rest"
        by simp
      have "scan d (Some ids) metas sim k f (idx # rest) results = Inr (results @ (hit # hits))"
        unfolding step using 1 by simp
      moreover have "map r_id (hit # hits)
             = map ((!) ids) (take (nat k - length results)
                 (filter (kept d f (Some ids) metas) (idx # rest)))"
        unfolding fl n using 2 hid by simp
      ultimately show ?thesis by blast
    qed
  qed
qed

lemma length_filter_permutation:
  assumes "distinct xs" and "set xs = {..<n}"
  shows "length (filter P xs) = length (filter P [0..<n])"
proof -
  have "length (filter P xs) = card ({x. P x} \<inter> set xs)"
    using assms(1) by (simp add: distinct_length_filter)
  also have "\<dots> = card ({x. P x} \<inter> set [0..<n])"
    using assms(2) by (simp add: atLeast0LessThan)
  also have "\<dots> = length (filter P [0..<n])"
    by (simp add: distinct_length_filter)
  finally show ?thesis .
qed

lemma search_cases:
  assumes "search env st q k fo = (Inr hits, st')"
  shows "hits = []
       \<or> (\<exists>vs qv. vectors st' = Some vs
            \<and> scan (decimal_digit env) (movie_ids st') (id_to_meta st') (map (cosine env qv) vs) k
                 (the_filters fo) (rev (argsort env (map (cosine env qv) vs))) [] = Inr hits)"
proof (cases "ensure_index env st")
  case (Pair o1 st1)
  show ?thesis
  proof (cases "\<exists>vs. vectors st1 = Some vs \<and> vs \<noteq> [] \<and> o1 = Returned")
    case False
    with assms Pair show ?thesis
      by (auto simp: search_def split: outcome.splits option.splits if_splits)
  next
    case True
    then obtain vs where v: "vectors st1 = Some vs" "vs \<noteq> []" "o1 = Returned" by blast
    obtain o2 st2 where l: "load_model env st1 = (o2, st2)" by (cases "load_model env st1")
    from load_model_fields[OF l] v have f: "vectors st2 = Some vs" "movie_ids st2 = movie_ids st1"
      "id_to_meta st2 = id_to_meta st1" by simp_all
    from assms Pair v l have "st' = st2"
      by (auto simp: search_def Let_def split: outcome.splits sum.splits list.splits)
    with assms Pair v l f show ?thesis
      by (auto simp: search_def Let_def the_filters_def split: outcome.splits sum.splits list.splits)
  qed
qed

lemma search_empty:
  assumes "ensure_index env st = (Returned, st1)" and "vectors st1 = None \<or> vectors st1 = Some []"
  shows "search env st q k fo = (Inr [], st1)"
  using assms by (auto simp: search_def)

lemma search_scan:
  assumes "vectors st = Some vs" and "vs \<noteq> []" and "model st \<or> load_model_ok env"
    and "encode env [query_text env q] = Inr (qv # others)"
  shows "\<exists>st'. movie_ids st' = movie_ids st \<and> id_to_meta st' = id_to_meta st \<and> vectors st' = vectors st \<and>
     search env st q k fo
       = (scan (decimal_digit env) (movie_ids st) (id_to_meta st) (map (cosine env qv) vs) k
            (the_filters fo) (rev (argsort env (map (cosine env qv) vs))) [], st')"
proof -
  obtain o2 st2 where l: "load_model env st = (o2, st2)" by (cases "load_model env st")
  with assms(3) have o: "o2 = Returned" by (auto simp: load_model_def split: if_splits)
  from load_model_fields[OF l] have f: "vectors st2 = vectors st" "movie_ids st2 = movie_ids st"
      "id_to_meta st2 = id_to_meta st" by simp_all
  from assms l o f have "search env st q k fo
       = (scan (decimal_digit env) (movie_ids st) (id_to_meta st) (map (cosine env qv) vs) k
            (the_filters fo) (rev (argsort env (map (cosine env qv) vs))) [], st2)"
    by (simp add: search_def ensure_index_present Let_def the_filters_def)
  with f show ?thesis by blast
qed

lemmas filter_defs = apply_filters_def year_filter_def year_bound_def and_then_def
  substr_filter_def no_filters_def fault_filters_def year_filters_def ascii_digit_def
  kept_def passes_def the_filters_def

lemma demo_query: "encode demo_env [query_text demo_env [97]] = Inr ([1, 0] # [])"
  by (simp add: demo_env_def query_text_def query_instruction_def py_lower_def)

lemma demo_state_fields:
  "vectors demo_state = Some [[0, 1], [0, 1], [1, 0]]"
  "movie_ids demo_state = Some [PInt 1, PInt 2, PInt 4]"
  "id_to_meta demo_state = Some [(PInt 1, demo_meta [65] hello_world [49, 57, 57, 52]),
        (PInt 2, demo_meta [65] hello_world [49, 57, 57, 52]),
        (PInt 4, demo_meta [67] [119, 97, 114, 32, 102, 105, 108, 109] [49, 57, 57, 57])]"
  "model demo_state"
  by (simp_all add: demo_state_def demo_blob_def)

lemma demo_displayable:
  "\<forall>i<length [PInt 1, PInt 2, PInt 4].
     \<exists>m. map_of [(PInt 1, demo_meta [65] hello_world [49, 57, 57, 52]),
        (PInt 2, demo_meta [65] hello_world [49, 57, 57, 52]),
        (PInt 4, demo_meta [67] [119, 97, 114, 32, 102, 105, 108, 109] [49, 57, 57, 57])]
          ([PInt 1, PInt 2, PInt 4] ! i) = Some m \<and> displayable m"
  by (simp add: displayable_def demo_meta_def less_Suc_eq)

lemma argsort_ok_pair: 
  assumes "argsort_ok srt" shows "srt [x, y] = [0, 1] \<or> srt [x, y] = [1, 0]"
proof -
  from assms have l: "length (srt [x, y]) = 2" by (simp add: argsort_ok_length)
  from assms have s: "set (srt [x, y]) = {..<2}" and d: "distinct (srt [x, y])"
    by (simp_all add: argsort_ok_def)
  from l obtain i j where p: "srt [x, y] = [i, j]"
    by (cases "srt [x, y]") (auto simp: length_Suc_conv)
  from s p have "i < 2" "j < 2" by auto
  with d p show ?thesis by auto
qed

lemma similar_hit_displayable:
  assumes "displayable m" and "i < length sim" and "resolve ids metas i = Inr (mid, m)"
  shows "\<exists>hit. similar_hit env ids metas sim i = Inr hit \<and> s_id hit = mid"
  using assms
  by (auto simp: displayable_def similar_hit_def py_index_def meta_item_def truncated_intro_def
      split: option.splits pyval.splits)

lemma py_slice_pair_from_1: "1 \<le> k \<Longrightarrow> py_slice [x, y] 1 (k + 1) = [y]"
  by (simp add: py_slice_def Let_def min_def)

text \<open>
  Two rows with the same vector, under any \<^verbatim>\<open>argsort\<close> that meets its guarantee: the
  similarities to either row are the same list, so both queries get the same row back,
  and for one of the two identifiers that row is the queried one.
\<close>

lemma search_by_id_duplicated_vectors:
  assumes "argsort_ok (argsort env)"
    and "vectors st = Some [v, v]" and "movie_ids st = Some [a, b]" and "a \<noteq> b"
    and "id_to_meta st = Some mt"
    and "map_of mt a = Some ma" and "displayable ma"
    and "map_of mt b = Some mb" and "displayable mb"
    and "1 \<le> top_k"
  shows "(\<exists>hits. search_by_id env st a top_k = (Inr hits, st) \<and> map s_id hits = [a])
       \<or> (\<exists>hits. search_by_id env st b top_k = (Inr hits, st) \<and> map s_id hits = [b])"
proof -
  let ?sim = "[cosine env v v, cosine env v v]"
  have ra: "resolve (Some [a, b]) (Some mt) 0 = Inr (a, ma)"
    and rb: "resolve (Some [a, b]) (Some mt) 1 = Inr (b, mb)"
    using assms(6,8) by (simp_all add: resolve_def py_index_def)
  from similar_hit_displayable[OF assms(7) _ ra, of ?sim env] obtain ha where
    ha: "similar_hit env (Some [a, b]) (Some mt) ?sim 0 = Inr ha" "s_id ha = a"
    by auto
  from similar_hit_displayable[OF assms(9) _ rb, of ?sim env] obtain hb where
    hb: "similar_hit env (Some [a, b]) (Some mt) ?sim 1 = Inr hb" "s_id hb = b"
    by auto
  have qa: "search_by_id env st a top_k
            = (try_map (similar_hit env (Some [a, b]) (Some mt) ?sim)
                 (py_slice (rev (argsort env ?sim)) 1 (top_k + 1)), st)"
    using assms(2,3,5)
    by (simp add: search_by_id_def ensure_index_present py_index_def Let_def)
  have qb: "search_by_id env st b top_k
            = (try_map (similar_hit env (Some [a, b]) (Some mt) ?sim)
                 (py_slice (rev (argsort env ?sim)) 1 (top_k + 1)), st)"
    using assms(2,3,4,5)
    by (simp add: search_by_id_def ensure_index_present py_index_def Let_def)
  from argsort_ok_pair[OF assms(1), of "cosine env v v" "cosine env v v"] show ?thesis
  proof
    assume p: "argsort env ?sim = [0, 1]"
    have "search_by_id env st a top_k = (Inr [ha], st)"
      unfolding qa p using ha(1) assms(10) by (simp add: py_slice_pair_from_1)
    with ha(2) show ?thesis by simp
  next
    assume p: "argsort env ?sim = [1, 0]"
    have "search_by_id env st b top_k = (Inr [hb], st)"
      unfolding qb p using hb(1) assms(10) by (simp add: py_slice_pair_from_1)
    with hb(2) show ?thesis by simp
  qed
qed

lemma try_map_index0:
  "\<forall>m\<in>set ms. 0 < length m \<Longrightarrow> try_map (\<lambda>m. py_index m 0) ms = Inr (map (\<lambda>m. m ! 0) ms)"
  by (induction ms) (simp_all add: py_index_def)

lemma build_meta_total:
  "\<forall>m\<in>set ms. 12 \<le> length m \<Longrightarrow> \<exists>mt. build_meta ms d = Inr mt"
  by (induction ms arbitrary: d) (simp_all add: meta_entry_def)

lemma load_model_returns:
  "model st \<or> load_model_ok env \<Longrightarrow>
     \<exists>st1. load_model env st = (Returned, st1) \<and> builds_done st1 = builds_done st"
  by (auto simp: load_model_def)

lemma rebuild_builds_index:
  assumes "model st \<or> load_model_ok env"
    and "get_all_movies env = Inr movies"
    and "valid_movies movies = Inr valid" and "valid \<noteq> []"
    and "\<forall>m\<in>set valid. 12 \<le> length m"
    and "try_map render valid = Inr sentences"
    and "encode env sentences = Inr vs"
    and "cache_writable env"
  shows "\<exists>st'. rebuild env st = (Returned, st')
           \<and> movie_ids st' = Some (map (\<lambda>m. m ! 0) valid) \<and> vectors st' = Some vs
           \<and> builds_done st' = Suc (builds_done st)"
proof -
  from load_model_returns[OF assms(1)] obtain st1 where
    l: "load_model env st = (Returned, st1)" and b: "builds_done st1 = builds_done st"
    by blast
  from assms(5) have "\<forall>m\<in>set valid. 0 < length m" by auto
  from try_map_index0[OF this] have i: "try_map (\<lambda>m. py_index m 0) valid = Inr (map (\<lambda>m. m ! 0) valid)" .
  from build_meta_total[OF assms(5), of "[]"] obtain mt where m: "build_meta valid [] = Inr mt"
    by blast
  from l b i m assms(2,3,4,6,7,8) show ?thesis
    by (simp add: rebuild_def Let_def save_to_cache_def add_log_def builds_done_def)
qed

lemma demo_sentences_length:
  "\<exists>a b c. try_map render (filter spec_indexable demo_movies) = Inr [a, b, c]
     \<and> length a = 35 \<and> length b = 35 \<and> length c = 32"
  by (simp add: demo_defs spec_indexable_def strip_def is_space_def render_def py_index_def
      clause_def field_or_empty_def)

lemma build_index_nonforced_started:
  assumes "build_index env False st = (out, st')"
  shows "if vectors st \<noteq> None \<or> cache_adopted env st
         then out = Returned \<and> builds_started st' = builds_started st
         else if model st \<or> load_model_ok env
           then builds_started st' = Suc (builds_started st)
           else out = Raised ModelLoadError \<and> builds_started st' = builds_started st"
  using assms
  by (auto simp: build_index_def load_from_cache_def cache_adopted_def add_log_def
      builds_started_def
      split: cache_file.splits option.splits sum.splits if_splits
      dest!: rebuild_builds_started)

section \<open>The claims\<close>

text \<open>
  Claim C1. A generation produced by a build that ran to its end has an identifier list,
  a matrix and a metadata dictionary of the same length; the identifiers are those of
  the indexable records in order, the matrix is what the encoder returned for the batch
  whose \<open>i\<close>-th sentence renders the \<open>i\<close>-th of these records, and every identifier is a
  key of the dictionary. The encoder returns one row per sentence, and the identifiers
  of the records are unique.
\<close>

theorem built_generation_aligned:
  assumes "build_index env force st = (Returned, st')"
    and "builds_done st < builds_done st'"
    and "encoder_ok (encode env)"
    and "get_all_movies env = Inr movies"
    and "distinct (map (\<lambda>m. py_index m 0) movies)"
  shows "\<exists>ids vs mt valid sentences.
           movie_ids st' = Some ids \<and> vectors st' = Some vs \<and> id_to_meta st' = Some mt
         \<and> length ids = length vs \<and> length mt = length ids
         \<and> set ids \<subseteq> fst ` set mt
         \<and> valid_movies movies = Inr valid
         \<and> map Inr ids = map (\<lambda>m. py_index m 0) valid
         \<and> map Inr sentences = map render valid
         \<and> encode env sentences = Inr vs"
proof -
  from build_index_cases[OF assms(1)] assms(2,4)
  obtain valid sentences ids mt vs where
    v: "valid_movies movies = Inr valid"
    and s: "try_map render valid = Inr sentences"
    and i: "try_map (\<lambda>m. py_index m 0) valid = Inr ids"
    and m: "build_meta valid [] = Inr mt"
    and e: "encode env sentences = Inr vs"
    and f: "vectors st' = Some vs" "movie_ids st' = Some ids" "id_to_meta st' = Some mt"
    by auto
  from e assms(3) have "length vs = length sentences"
    by (simp add: encoder_ok_def)
  with try_map_length[OF s] try_map_length[OF i] have l1: "length ids = length vs"
    by simp
  from distinct_ids_of_valid[OF v assms(5) i] have "distinct ids" .
  from build_meta_length[OF m i this] have l2: "length mt = length ids" .
  from build_meta_keys[OF m i] have k: "set ids \<subseteq> fst ` set mt"
    by simp
  from f l1 l2 k v try_map_map[OF i] try_map_map[OF s] e show ?thesis
    by blast
qed

theorem built_generation_aligned_witness:
  "build_index demo_env True (init NoFile) = (Returned, demo_state)
   \<and> builds_done (init NoFile :: int list state) < builds_done demo_state
   \<and> movie_ids demo_state = Some [PInt 1, PInt 2, PInt 4]
   \<and> (\<exists>ids vs mt valid sentences.
           movie_ids demo_state = Some ids \<and> vectors demo_state = Some vs
         \<and> id_to_meta demo_state = Some mt
         \<and> length ids = length vs \<and> length mt = length ids
         \<and> set ids \<subseteq> fst ` set mt
         \<and> valid_movies demo_movies = Inr valid
         \<and> map Inr ids = map (\<lambda>m. py_index m 0) valid
         \<and> map Inr sentences = map render valid
         \<and> encode demo_env sentences = Inr vs)"
proof -
  have b: "builds_done (init NoFile :: int list state) < builds_done demo_state"
    by (simp add: builds_done_def demo_defs)
  have g: "get_all_movies demo_env = Inr demo_movies"
    by (simp add: demo_env_def)
  have i: "movie_ids demo_state = Some [PInt 1, PInt 2, PInt 4]"
    by (simp add: demo_state_def demo_blob_def)
  from built_generation_aligned[OF demo_build b demo_encoder_ok g demo_ids_distinct] demo_build b i
  show ?thesis by blast
qed

text \<open>
  Claim C8. For records whose description cell is a string or \<^verbatim>\<open>None\<close>, the records kept
  by line 73 are exactly those whose trimmed description is longer than 5 characters,
  in the order of the storage layer. A forced build over such records of twelve cells,
  with the encoder available, at least one record kept and the cache file writable,
  returns with the identifiers of exactly these records as its identifier list; and
  whatever build ran to its end has their identifiers. In the sample the records with
  the 11-character description are in the built index and the one whose trimmed
  description has 3 characters is not.
\<close>

theorem indexable_iff_trimmed_longer_than_5:
  assumes "\<forall>m\<in>set movies. 6 < length m \<and> (case m ! 6 of PInt i \<Rightarrow> False | _ \<Rightarrow> True)"
    and "get_all_movies env = Inr movies"
  shows "valid_movies movies = Inr (filter spec_indexable movies)
       \<and> (\<forall>m\<in>set movies. m \<in> set (filter spec_indexable movies) \<longleftrightarrow> spec_indexable m)
       \<and> ((model st \<or> load_model_ok env) \<and> (\<forall>m\<in>set movies. 12 \<le> length m)
            \<and> filter spec_indexable movies \<noteq> []
            \<and> try_map render (filter spec_indexable movies) = Inr sentences
            \<and> encode env sentences = Inr vs \<and> cache_writable env
          \<longrightarrow> (\<exists>st'. build_index env True st = (Returned, st')
                \<and> movie_ids st' = Some (map (\<lambda>m. m ! 0) (filter spec_indexable movies))
                \<and> vectors st' = Some vs
                \<and> builds_done st' = Suc (builds_done st)))
       \<and> (build_index env force st = (Returned, st1) \<and> builds_done st < builds_done st1
          \<longrightarrow> (\<exists>ids. movie_ids st1 = Some ids
                \<and> map Inr ids = map (\<lambda>m. py_index m 0) (filter spec_indexable movies)))"
proof -
  note v = valid_movies_described[OF assms(1)]
  have c: "\<exists>st'. build_index env True st = (Returned, st')
                \<and> movie_ids st' = Some (map (\<lambda>m. m ! 0) (filter spec_indexable movies))
                \<and> vectors st' = Some vs
                \<and> builds_done st' = Suc (builds_done st)"
    if "model st \<or> load_model_ok env" "\<forall>m\<in>set movies. 12 \<le> length m"
      "filter spec_indexable movies \<noteq> []"
      "try_map render (filter spec_indexable movies) = Inr sentences"
      "encode env sentences = Inr vs" "cache_writable env"
  proof -
    from that(2) have "\<forall>m\<in>set (filter spec_indexable movies). 12 \<le> length m" by simp
    from rebuild_builds_index[OF that(1) assms(2) v that(3) this that(4,5,6)]
    show ?thesis by (simp add: build_index_def)
  qed
  have d: "\<exists>ids. movie_ids st1 = Some ids
          \<and> map Inr ids = map (\<lambda>m. py_index m 0) (filter spec_indexable movies)"
    if b: "build_index env force st = (Returned, st1)" and n: "builds_done st < builds_done st1"
  proof -
    from build_index_cases[OF b] n assms(2) v
    obtain ids where i: "try_map (\<lambda>m. py_index m 0) (filter spec_indexable movies) = Inr ids"
      and f: "movie_ids st1 = Some ids"
      by auto
    from f try_map_map[OF i] show ?thesis by simp
  qed
  have m: "\<forall>m\<in>set movies. m \<in> set (filter spec_indexable movies) \<longleftrightarrow> spec_indexable m"
    by simp
  from v m c d show ?thesis by blast
qed

theorem indexable_iff_trimmed_longer_than_5_witness:
  "length hello_world = 11 \<and> demo_movies ! 0 ! 6 = PStr hello_world
   \<and> demo_movies ! 2 ! 6 = PStr [32, 32, 97, 98, 99, 32, 32]
   \<and> length (strip [32, 32, 97, 98, 99, 32, 32]) = 3
   \<and> valid_movies demo_movies = Inr [demo_movies ! 0, demo_movies ! 1, demo_movies ! 3]
   \<and> (\<exists>st'. build_index demo_env True (init NoFile) = (Returned, st')
        \<and> movie_ids st' = Some [PInt 1, PInt 2, PInt 4]
        \<and> vectors st' = Some [[0, 1], [0, 1], [1, 0]]
        \<and> builds_done st' = Suc (builds_done (init NoFile :: int list state)))"
proof -
  have g: "get_all_movies demo_env = Inr demo_movies"
    by (simp add: demo_env_def)
  have f: "filter spec_indexable demo_movies = [demo_movies ! 0, demo_movies ! 1, demo_movies ! 3]"
    by (simp add: demo_defs spec_indexable_def strip_def is_space_def)
  have i: "map (\<lambda>m. m ! 0) (filter spec_indexable demo_movies) = [PInt 1, PInt 2, PInt 4]"
    unfolding f by (simp add: demo_defs)
  from demo_sentences_length obtain a b c where
    r: "try_map render (filter spec_indexable demo_movies) = Inr [a, b, c]"
    and l: "length a = 35" "length b = 35" "length c = 32" by (elim exE conjE)
  from l have e: "encode demo_env [a, b, c] = Inr [[0, 1], [0, 1], [1, 0]]"
    by (simp add: demo_env_def)
  have p: "(model (init NoFile :: int list state) \<or> load_model_ok demo_env)"
    "\<forall>m\<in>set demo_movies. 12 \<le> length m" "cache_writable demo_env"
    by (simp_all add: demo_defs)
  from f have ne: "filter spec_indexable demo_movies \<noteq> []" by simp
  note t = indexable_iff_trimmed_longer_than_5[OF demo_described g,
      where st = "init NoFile" and sentences = "[a, b, c]" and vs = "[[0, 1], [0, 1], [1, 0]]"]
  from t have 1: "valid_movies demo_movies = Inr (filter spec_indexable demo_movies)"
    by blast
  from t p ne r e
  have 2: "\<exists>st'. build_index demo_env True (init NoFile) = (Returned, st')
        \<and> movie_ids st' = Some (map (\<lambda>m. m ! 0) (filter spec_indexable demo_movies))
        \<and> vectors st' = Some [[0, 1], [0, 1], [1, 0]]
        \<and> builds_done st' = Suc (builds_done (init NoFile :: int list state))"
    by blast
  have 3: "length hello_world = 11" "demo_movies ! 0 ! 6 = PStr hello_world"
    "demo_movies ! 2 ! 6 = PStr [32, 32, 97, 98, 99, 32, 32]"
    "length (strip [32, 32, 97, 98, 99, 32, 32]) = 3"
    by (simp_all add: demo_defs strip_def is_space_def)
  from 2 have 4: "\<exists>st'. build_index demo_env True (init NoFile) = (Returned, st')
        \<and> movie_ids st' = Some [PInt 1, PInt 2, PInt 4]
        \<and> vectors st' = Some [[0, 1], [0, 1], [1, 0]]
        \<and> builds_done st' = Suc (builds_done (init NoFile :: int list state))"
    by (simp only: i)
  from 1 have 5: "valid_movies demo_movies = Inr [demo_movies ! 0, demo_movies ! 1, demo_movies ! 3]"
    by (simp only: f)
  from 3 5 4 show ?thesis by (intro conjI)
qed

text \<open>
  Claim C10. With exactly one indexed record, \<^verbatim>\<open>search_by_id\<close> returns the empty list for
  that record's own identifier, whatever \<^verbatim>\<open>top_k\<close> is, and also for any other identifier:
  the empty result does not tell the two cases apart.
\<close>

theorem search_by_id_single_record_empty:
  assumes "vectors st = Some [v]" and "movie_ids st = Some [mid]"
    and "argsort_ok (argsort env)"
  shows "search_by_id env st mid top_k = (Inr [], st)
       \<and> (\<forall>other. other \<noteq> mid \<longrightarrow> search_by_id env st other top_k = (Inr [], st))"
  using assms
  by (simp add: search_by_id_def ensure_index_present py_index_def argsort_ok_singleton
      py_slice_singleton_from_1)

theorem search_by_id_single_record_empty_witness:
  "search_by_id demo_env single_state (PInt 1) 6 = (Inr [], single_state)
   \<and> search_by_id demo_env single_state (PInt 1) 0 = (Inr [], single_state)
   \<and> search_by_id demo_env single_state (PInt 7) 6 = (Inr [], single_state)"
proof -
  have v: "vectors single_state = Some [[0, 1]]" and m: "movie_ids single_state = Some [PInt 1]"
    by (simp_all add: single_state_def)
  from search_by_id_single_record_empty[OF v m demo_argsort_ok] show ?thesis
    by simp
qed

text \<open>
  Claim C2. A forced rebuild whose batch encoding raises does not leave the previous
  generation in place: in the sample the call raises, the matrix is still the old one
  of three rows, and the identifier list is already the new one of four entries. The
  source assigns \<^verbatim>\<open>movie_ids\<close> and \<^verbatim>\<open>id_to_meta\<close> (lines 110 and 111) before it calls
  \<^verbatim>\<open>encode\<close> (line 127).
\<close>

theorem failed_encode_leaves_torn_generation:
  "fst (build_index failing_env True demo_state) = Raised EncodeError
   \<and> vectors (snd (build_index failing_env True demo_state)) = Some [[0, 1], [0, 1], [1, 0]]
   \<and> movie_ids (snd (build_index failing_env True demo_state))
       = Some [PInt 1, PInt 2, PInt 4, PInt 5]
   \<and> movie_ids demo_state = Some [PInt 1, PInt 2, PInt 4]
   \<and> vectors demo_state = Some [[0, 1], [0, 1], [1, 0]]"
  by (simp add: failing_env_def demo_defs build_defs)

text \<open>
  Claim C3. Records 1 and 2 of the sample have the same sentence and so the same
  vector. \<^verbatim>\<open>search_by_id\<close> for record 1 ranks row 1 (record 2) first and row 0 (record 1
  itself) second, and the slice from rank 2 on returns record 1 among the hits.
\<close>

theorem search_by_id_returns_queried_duplicate:
  "map_sum id (map s_id) (fst (search_by_id demo_env demo_state (PInt 1) 6))
     = Inr [PInt 1, PInt 4]"
  by (simp add: demo_defs search_defs py_index_def)

text \<open>
  Claim C4. With no indexable record the build returns without an index; \<^verbatim>\<open>search\<close>
  then returns the empty list, but \<^verbatim>\<open>search_by_id\<close> evaluates
  \<^verbatim>\<open>movie_id not in self.movie_ids\<close> with \<^verbatim>\<open>self.movie_ids\<close> still \<^verbatim>\<open>None\<close> and raises
  \<^verbatim>\<open>TypeError\<close>.
\<close>

theorem search_by_id_raises_on_empty_corpus:
  "valid_movies [demo_movies ! 2] = Inr []
   \<and> fst (search_by_id short_env (init NoFile) (PInt 3) 6) = Inl TypeError
   \<and> fst (search short_env (init NoFile) [97] 5 None) = Inr []"
  by (simp add: short_env_def demo_defs build_defs search_defs)

text \<open>
  Claim C5, with its premises made explicit. When a non-forced call has returned and
  left a generation, a second non-forced call returns at once with the state, the cache
  file and the log unchanged. The two calls together start one rebuild when the service
  held no generation before the first call and that call did not adopt the cache, and
  none otherwise. A forced call is the rebuild, whatever the state: it starts one build
  when the encoder is loaded or can be loaded, and raises the load failure otherwise.
\<close>

theorem ensure_ready_idempotent_and_forced_rebuild:
  assumes "build_index env False st = (Returned, st1)" and "vectors st1 \<noteq> None"
  shows "build_index env False st1 = (Returned, st1)
       \<and> builds_started (snd (build_index env False st1))
           = builds_started st + (if vectors st = None \<and> \<not> cache_adopted env st then 1 else 0)
       \<and> build_index env True st0 = rebuild env st0
       \<and> builds_started (snd (build_index env True st0))
           = builds_started st0 + (if model st0 \<or> load_model_ok env then 1 else 0)
       \<and> (\<not> (model st0 \<or> load_model_ok env)
            \<longrightarrow> fst (build_index env True st0) = Raised ModelLoadError)"
proof -
  from assms(2) have n: "build_index env False st1 = (Returned, st1)"
    by (simp add: build_index_def)
  from build_index_nonforced_started[OF assms(1)]
  have "builds_started st1
         = builds_started st + (if vectors st = None \<and> \<not> cache_adopted env st then 1 else 0)"
    by (simp split: if_splits)
  with n have c: "builds_started (snd (build_index env False st1))
         = builds_started st + (if vectors st = None \<and> \<not> cache_adopted env st then 1 else 0)"
    by simp
  obtain out st' where r: "rebuild env st0 = (out, st')" by (cases "rebuild env st0")
  from rebuild_builds_started[OF r] r
  have f: "builds_started (snd (build_index env True st0))
           = builds_started st0 + (if model st0 \<or> load_model_ok env then 1 else 0)"
    and g: "\<not> (model st0 \<or> load_model_ok env)
            \<longrightarrow> fst (build_index env True st0) = Raised ModelLoadError"
    by (simp_all add: build_index_forced split: if_splits)
  from n c f g build_index_forced[of env st0] show ?thesis
    by blast
qed

theorem ensure_ready_idempotent_and_forced_rebuild_witness:
  "build_index demo_env False (init NoFile) = (Returned, demo_state)
   \<and> \<not> cache_adopted demo_env (init NoFile)
   \<and> build_index demo_env False demo_state = (Returned, demo_state)
   \<and> builds_started (init NoFile :: int list state) = 0
   \<and> builds_started (snd (build_index demo_env False demo_state)) = 1
   \<and> builds_started demo_state = 1
   \<and> builds_started (snd (build_index demo_env True demo_state)) = 2
   \<and> cache_adopted adopt_env (init (Pickled demo_blob))
   \<and> fst (build_index adopt_env False (init (Pickled demo_blob))) = Returned
   \<and> builds_started (snd (build_index adopt_env False
         (snd (build_index adopt_env False (init (Pickled demo_blob)))))) = 0"
proof -
  have b: "build_index demo_env False (init NoFile) = (Returned, demo_state)"
    by (simp add: demo_defs build_defs)
  have v: "vectors demo_state \<noteq> None"
    by (simp add: demo_state_def demo_blob_def)
  have i: "vectors (init NoFile :: int list state) = None"
    "\<not> cache_adopted demo_env (init NoFile)"
    "builds_started (init NoFile :: int list state) = 0"
    by (simp_all add: init_def builds_started_def cache_adopted_def)
  have m: "model demo_state" "builds_started demo_state = 1"
    by (simp_all add: demo_state_def builds_started_def)
  note t = ensure_ready_idempotent_and_forced_rebuild[OF b v, of demo_state]
  from t have 1: "build_index demo_env False demo_state = (Returned, demo_state)" by blast
  from t have "builds_started (snd (build_index demo_env False demo_state))
      = builds_started (init NoFile :: int list state)
        + (if vectors (init NoFile :: int list state) = None
              \<and> \<not> cache_adopted demo_env (init NoFile) then 1 else 0)"
    by blast
  with i have 2: "builds_started (snd (build_index demo_env False demo_state)) = 1"
    by simp
  from t have "builds_started (snd (build_index demo_env True demo_state))
      = builds_started demo_state + (if model demo_state \<or> load_model_ok demo_env then 1 else 0)"
    by blast
  with m have 3: "builds_started (snd (build_index demo_env True demo_state)) = 2"
    by simp
  let ?c = "init (Pickled demo_blob) :: int list state"
  obtain a where a: "build_index adopt_env False ?c = (Returned, a)" and va: "vectors a \<noteq> None"
    by (simp add: adopt_env_def demo_defs build_defs)
  have ca: "cache_adopted adopt_env ?c" "builds_started ?c = 0"
    by (simp_all add: cache_adopted_def adopt_env_def demo_defs builds_started_def)
  from ensure_ready_idempotent_and_forced_rebuild[OF a va, of demo_state]
  have "builds_started (snd (build_index adopt_env False a))
      = builds_started ?c + (if vectors ?c = None \<and> \<not> cache_adopted adopt_env ?c then 1 else 0)"
    by blast
  with ca a have 4: "builds_started (snd (build_index adopt_env False
         (snd (build_index adopt_env False ?c)))) = 0"
    by simp
  from a have 5: "fst (build_index adopt_env False ?c) = Returned" by simp
  from b i(2,3) 1 2 m(2) 3 ca(1) 5 4 show ?thesis by (intro conjI)
qed

text \<open>
  Without the premise the statement fails: when no record is indexable the first
  non-forced call returns without a generation (line 77), and the second call runs the
  rebuild again. Two calls, two rebuilds started.
\<close>

theorem ensure_ready_twice_rebuilds_twice_without_records:
  "fst (build_index short_env False (init NoFile)) = Returned
   \<and> vectors (snd (build_index short_env False (init NoFile))) = None
   \<and> builds_started (init NoFile :: int list state) = 0
   \<and> builds_started (snd (build_index short_env False (init NoFile))) = 1
   \<and> fst (build_index short_env False (snd (build_index short_env False (init NoFile))))
       = Returned
   \<and> builds_started (snd (build_index short_env False
         (snd (build_index short_env False (init NoFile))))) = 2"
  by (simp add: short_env_def demo_defs build_defs builds_started_def)

text \<open>
  Claim C7. A non-forced build without a generation that finds a cache file: when the
  file unpickles and its identifier count equals the number of stored records, the
  cached generation is adopted and the call returns; when the counts differ, or when
  loading the file raises, the call is a rebuild from the state the attempt left, and
  it raises exactly when a forced build would.
\<close>

theorem stale_or_corrupt_cache_forces_rebuild:
  assumes "vectors st = None" and "cache_file st \<noteq> NoFile"
  shows "(cache_file st = Pickled b \<and> b_vectors b = Some vs \<and> b_movie_ids b = Some ids
            \<and> b_id_to_meta b = Some mt \<and> get_all_movies env = Inr movies
            \<and> length ids = length movies
          \<longrightarrow> build_index env False st
                = (Returned, add_log LogCacheLoaded
                     (st\<lparr>vectors := Some vs, movie_ids := Some ids, id_to_meta := Some mt\<rparr>)))
       \<and> (cache_file st = Pickled b \<and> b_vectors b = Some vs \<and> b_movie_ids b = Some ids
            \<and> b_id_to_meta b = Some mt \<and> get_all_movies env = Inr movies
            \<and> length ids \<noteq> length movies
          \<longrightarrow> build_index env False st
                = rebuild env (add_log (LogCacheStale (length movies) (length ids))
                     (st\<lparr>vectors := Some vs, movie_ids := Some ids, id_to_meta := Some mt\<rparr>))
              \<and> fst (build_index env False st) = fst (build_index env True st))
       \<and> (load_from_cache st = (Raised e, st1)
          \<longrightarrow> build_index env False st = rebuild env (add_log (LogCacheFailed e) st1)
              \<and> fst (build_index env False st) = fst (build_index env True st))"
proof -
  have stale: "build_index env False st
        = rebuild env (add_log (LogCacheStale (length movies) (length ids))
            (st\<lparr>vectors := Some vs, movie_ids := Some ids, id_to_meta := Some mt\<rparr>))
      \<and> fst (build_index env False st) = fst (build_index env True st)"
    if "cache_file st = Pickled b" "b_vectors b = Some vs" "b_movie_ids b = Some ids"
      "b_id_to_meta b = Some mt" "get_all_movies env = Inr movies" "length ids \<noteq> length movies"
  proof -
    let ?mid = "add_log (LogCacheStale (length movies) (length ids))
            (st\<lparr>vectors := Some vs, movie_ids := Some ids, id_to_meta := Some mt\<rparr>)"
    from that assms have 1: "build_index env False st = rebuild env ?mid"
      by (simp add: build_index_def load_from_cache_def)
    have "model ?mid = model st" by (simp add: add_log_def)
    from rebuild_outcome_model[OF this] 1 show ?thesis
      by (simp add: build_index_def)
  qed
  have adopt: "build_index env False st
        = (Returned, add_log LogCacheLoaded
             (st\<lparr>vectors := Some vs, movie_ids := Some ids, id_to_meta := Some mt\<rparr>))"
    if "cache_file st = Pickled b" "b_vectors b = Some vs" "b_movie_ids b = Some ids"
      "b_id_to_meta b = Some mt" "get_all_movies env = Inr movies" "length ids = length movies"
    using that assms by (simp add: build_index_def load_from_cache_def)
  have corrupt: "build_index env False st = rebuild env (add_log (LogCacheFailed e) st1)
      \<and> fst (build_index env False st) = fst (build_index env True st)"
    if l: "load_from_cache st = (Raised e, st1)"
  proof -
    from l assms have 1: "build_index env False st = rebuild env (add_log (LogCacheFailed e) st1)"
      by (simp add: build_index_def)
    from load_from_cache_model[OF l] have "model (add_log (LogCacheFailed e) st1) = model st"
      by (simp add: add_log_def)
    from rebuild_outcome_model[OF this] 1 show ?thesis
      by (simp add: build_index_def)
  qed
  from stale adopt corrupt show ?thesis by blast
qed

theorem stale_or_corrupt_cache_forces_rebuild_witness:
  "build_index adopt_env False (init (Pickled demo_blob))
     = (Returned, add_log LogCacheLoaded
          ((init (Pickled demo_blob))\<lparr>vectors := b_vectors demo_blob,
             movie_ids := b_movie_ids demo_blob, id_to_meta := b_id_to_meta demo_blob\<rparr>))
   \<and> build_index demo_env False (init (Pickled demo_blob))
     = (Returned, demo_state\<lparr>logged := LogCacheStale 4 3 # logged demo_state\<rparr>)
   \<and> load_from_cache (init Unreadable :: int list state) = (Raised UnpicklingError, init Unreadable)
   \<and> build_index demo_env False (init Unreadable)
     = (Returned, demo_state\<lparr>logged := LogCacheFailed UnpicklingError # logged demo_state\<rparr>)"
proof -
  let ?c = "init (Pickled demo_blob) :: int list state"
  let ?u = "init Unreadable :: int list state"
  have c: "vectors ?c = None" "cache_file ?c \<noteq> NoFile" "cache_file ?c = Pickled demo_blob"
    and u: "vectors ?u = None" "cache_file ?u \<noteq> NoFile"
    by (simp_all add: init_def)
  have b: "b_vectors demo_blob = Some [[0, 1], [0, 1], [1, 0]]"
    "b_movie_ids demo_blob = Some [PInt 1, PInt 2, PInt 4]"
    "b_id_to_meta demo_blob = Some [(PInt 1, demo_meta [65] hello_world [49, 57, 57, 52]),
        (PInt 2, demo_meta [65] hello_world [49, 57, 57, 52]),
        (PInt 4, demo_meta [67] [119, 97, 114, 32, 102, 105, 108, 109] [49, 57, 57, 57])]"
    by (simp_all add: demo_blob_def)
  have ga: "get_all_movies adopt_env = Inr [demo_movies ! 0, demo_movies ! 1, demo_movies ! 3]"
    by (simp add: adopt_env_def demo_env_def)
  have gd: "get_all_movies demo_env = Inr demo_movies"
    by (simp add: demo_env_def)
  have l: "load_from_cache ?u = (Raised UnpicklingError, ?u)"
    by (simp add: load_from_cache_def init_def)
  from stale_or_corrupt_cache_forces_rebuild[OF c(1,2), where env = adopt_env
      and b = demo_blob and vs = "[[0, 1], [0, 1], [1, 0]]" and ids = "[PInt 1, PInt 2, PInt 4]"
      and mt = "[(PInt 1, demo_meta [65] hello_world [49, 57, 57, 52]),
        (PInt 2, demo_meta [65] hello_world [49, 57, 57, 52]),
        (PInt 4, demo_meta [67] [119, 97, 114, 32, 102, 105, 108, 109] [49, 57, 57, 57])]"
      and movies = "[demo_movies ! 0, demo_movies ! 1, demo_movies ! 3]"] c(3) b ga
  have 1: "build_index adopt_env False ?c
     = (Returned, add_log LogCacheLoaded
          (?c\<lparr>vectors := b_vectors demo_blob,
             movie_ids := b_movie_ids demo_blob, id_to_meta := b_id_to_meta demo_blob\<rparr>))"
    by simp
  have ne: "length [PInt 1, PInt 2, PInt 4] \<noteq> length demo_movies"
    by (simp add: demo_movies_def)
  from stale_or_corrupt_cache_forces_rebuild[OF c(1,2), where env = demo_env
      and b = demo_blob and vs = "[[0, 1], [0, 1], [1, 0]]" and ids = "[PInt 1, PInt 2, PInt 4]"
      and mt = "[(PInt 1, demo_meta [65] hello_world [49, 57, 57, 52]),
        (PInt 2, demo_meta [65] hello_world [49, 57, 57, 52]),
        (PInt 4, demo_meta [67] [119, 97, 114, 32, 102, 105, 108, 109] [49, 57, 57, 57])]"
      and movies = demo_movies] c(3) b gd ne
  have "build_index demo_env False ?c
     = rebuild demo_env (add_log (LogCacheStale (length demo_movies) (length [PInt 1, PInt 2, PInt 4]))
          (?c\<lparr>vectors := Some [[0, 1], [0, 1], [1, 0]],
             movie_ids := Some [PInt 1, PInt 2, PInt 4],
             id_to_meta := Some [(PInt 1, demo_meta [65] hello_world [49, 57, 57, 52]),
        (PInt 2, demo_meta [65] hello_world [49, 57, 57, 52]),
        (PInt 4, demo_meta [67] [119, 97, 114, 32, 102, 105, 108, 109] [49, 57, 57, 57])]\<rparr>))"
    by blast
  then have 2: "build_index demo_env False ?c
     = (Returned, demo_state\<lparr>logged := LogCacheStale 4 3 # logged demo_state\<rparr>)"
    by (simp add: demo_defs build_defs)
  from stale_or_corrupt_cache_forces_rebuild[OF u, where env = demo_env
      and e = UnpicklingError and ?st1.0 = "init Unreadable"] l
  have "build_index demo_env False ?u = rebuild demo_env (add_log (LogCacheFailed UnpicklingError) ?u)"
    by simp
  then have 3: "build_index demo_env False ?u
     = (Returned, demo_state\<lparr>logged := LogCacheFailed UnpicklingError # logged demo_state\<rparr>)"
    by (simp add: demo_defs build_defs)
  from 1 2 l 3 show ?thesis by simp
qed

text \<open>
  Claim C6. On a generation whose rows all resolve to displayable metadata, \<^verbatim>\<open>search\<close>
  returns, in rank order, the first \<^verbatim>\<open>top_k\<close> candidates that the fail-open policy keeps:
  a candidate whose filters raise is kept like one that passes them, the scan goes on
  after it, and the query does not raise.
\<close>

theorem search_filters_fail_open:
  assumes "vectors st = Some vs" and "vs \<noteq> []"
    and "movie_ids st = Some ids" and "id_to_meta st = Some mt" and "length ids = length vs"
    and "\<forall>i<length ids. \<exists>m. map_of mt (ids ! i) = Some m \<and> displayable m"
    and "model st \<or> load_model_ok env"
    and "encode env [query_text env q] = Inr (qv # others)"
    and "argsort_ok (argsort env)"
  shows "(\<exists>hits st'. search env st q k fo = (Inr hits, st')
           \<and> map r_id hits
             = map ((!) ids) (take (nat k)
                 (filter (kept (decimal_digit env) (the_filters fo) (Some ids) (Some mt))
                    (rev (argsort env (map (cosine env qv) vs))))))
       \<and> (\<forall>i<length ids. \<forall>m e. map_of mt (ids ! i) = Some m
            \<longrightarrow> apply_filters (decimal_digit env) (the_filters fo) m = Inl e
            \<longrightarrow> kept (decimal_digit env) (the_filters fo) (Some ids) (Some mt) i)"
proof -
  let ?sim = "map (cosine env qv) vs"
  let ?idxs = "rev (argsort env ?sim)"
  from assms(9) have "set (argsort env ?sim) = {..<length ?sim}"
    by (simp add: argsort_ok_def)
  then have rng: "\<forall>i\<in>set ?idxs. i < length vs" by simp
  have res: "\<exists>m. resolve (Some ids) (Some mt) i = Inr (ids ! i, m) \<and> displayable m"
    if "i < length ids" for i
  proof -
    from assms(6) that obtain m where "map_of mt (ids ! i) = Some m" "displayable m" by blast
    with that show ?thesis by (simp add: resolve_def py_index_def)
  qed
  with rng assms(5) have wf: "\<forall>i\<in>set ?idxs. i < length ?sim
      \<and> (\<exists>m. resolve (Some ids) (Some mt) i = Inr (ids ! i, m) \<and> displayable m)"
    by simp
  from scan_fail_open[OF wf, of "decimal_digit env" k "the_filters fo" "[]"]
  obtain hits where
    1: "scan (decimal_digit env) (Some ids) (Some mt) ?sim k (the_filters fo) ?idxs [] = Inr hits"
    and 2: "map r_id hits = map ((!) ids) (take (nat k)
              (filter (kept (decimal_digit env) (the_filters fo) (Some ids) (Some mt)) ?idxs))"
    by auto
  from search_scan[OF assms(1,2,7,8), of k fo] assms(3,4) 1 obtain st' where
    "search env st q k fo = (Inr hits, st')" by auto
  with 2 have A: "\<exists>hits st'. search env st q k fo = (Inr hits, st')
           \<and> map r_id hits
             = map ((!) ids) (take (nat k)
                 (filter (kept (decimal_digit env) (the_filters fo) (Some ids) (Some mt)) ?idxs))"
    by blast
  have B: "kept (decimal_digit env) (the_filters fo) (Some ids) (Some mt) i"
    if "i < length ids" "map_of mt (ids ! i) = Some m"
      "apply_filters (decimal_digit env) (the_filters fo) m = Inl e" for i m e
    using that by (simp add: kept_def passes_def resolve_def py_index_def)
  from A B show ?thesis by blast
qed

theorem search_filters_fail_open_witness:
  "apply_filters ascii_digit fault_filters
     (demo_meta [67] [119, 97, 114, 32, 102, 105, 108, 109] [49, 57, 57, 57]) = Inl TypeError
   \<and> apply_filters ascii_digit year_filters
     (demo_meta [67] [119, 97, 114, 32, 102, 105, 108, 109] [49, 57, 57, 57]) = Inr False
   \<and> (\<exists>hits st'. search demo_env demo_state [97] 5 (Some fault_filters) = (Inr hits, st')
        \<and> map r_id hits = [PInt 4, PInt 2, PInt 1])
   \<and> (\<exists>hits st'. search demo_env demo_state [97] 5 (Some year_filters) = (Inr hits, st')
        \<and> map r_id hits = [])"
proof -
  have a: "apply_filters ascii_digit fault_filters
     (demo_meta [67] [119, 97, 114, 32, 102, 105, 108, 109] [49, 57, 57, 57]) = Inl TypeError"
    by (simp add: filter_defs demo_meta_def)
  have b: "apply_filters ascii_digit year_filters
     (demo_meta [67] [119, 97, 114, 32, 102, 105, 108, 109] [49, 57, 57, 57]) = Inr False"
    by (simp add: filter_defs demo_meta_def meta_get_def)
  have m: "model demo_state \<or> load_model_ok demo_env"
    by (simp add: demo_state_fields)
  have l: "length [PInt 1, PInt 2, PInt 4] = length [[0, 1], [0, 1], [1, 0 :: int]]"
    by simp
  have n: "[[0, 1], [0, 1], [1, 0 :: int]] \<noteq> []" by simp
  note t = search_filters_fail_open[OF demo_state_fields(1) n demo_state_fields(2,3) l
      demo_displayable m demo_query demo_argsort_ok]
  from t[of 5 "Some fault_filters"] obtain hits st' where
    1: "search demo_env demo_state [97] 5 (Some fault_filters) = (Inr hits, st')"
    and 2: "map r_id hits = map ((!) [PInt 1, PInt 2, PInt 4]) (take (nat 5)
              (filter (kept (decimal_digit demo_env) (the_filters (Some fault_filters))
                 (Some [PInt 1, PInt 2, PInt 4])
                 (Some [(PInt 1, demo_meta [65] hello_world [49, 57, 57, 52]),
        (PInt 2, demo_meta [65] hello_world [49, 57, 57, 52]),
        (PInt 4, demo_meta [67] [119, 97, 114, 32, 102, 105, 108, 109] [49, 57, 57, 57])]))
                 (rev (argsort demo_env (map (cosine demo_env [1, 0]) [[0, 1], [0, 1], [1, 0]])))))"
    by blast
  from 2 have 3: "map r_id hits = [PInt 4, PInt 2, PInt 1]"
    by (simp add: demo_env_def stable_argsort_def filter_defs resolve_def py_index_def demo_meta_def)
  from t[of 5 "Some year_filters"] obtain hits' st'' where
    4: "search demo_env demo_state [97] 5 (Some year_filters) = (Inr hits', st'')"
    and 5: "map r_id hits' = map ((!) [PInt 1, PInt 2, PInt 4]) (take (nat 5)
              (filter (kept (decimal_digit demo_env) (the_filters (Some year_filters))
                 (Some [PInt 1, PInt 2, PInt 4])
                 (Some [(PInt 1, demo_meta [65] hello_world [49, 57, 57, 52]),
        (PInt 2, demo_meta [65] hello_world [49, 57, 57, 52]),
        (PInt 4, demo_meta [67] [119, 97, 114, 32, 102, 105, 108, 109] [49, 57, 57, 57])]))
                 (rev (argsort demo_env (map (cosine demo_env [1, 0]) [[0, 1], [0, 1], [1, 0]])))))"
    by blast
  from 5 have 6: "map r_id hits' = []"
    by (simp add: demo_env_def stable_argsort_def filter_defs resolve_def py_index_def demo_meta_def
        meta_get_def)
  from 1 3 have A: "\<exists>hits st'. search demo_env demo_state [97] 5 (Some fault_filters) = (Inr hits, st')
        \<and> map r_id hits = [PInt 4, PInt 2, PInt 1]"
    by (intro exI[of _ hits] exI[of _ st'] conjI)
  from 4 6 have B: "\<exists>hits st'. search demo_env demo_state [97] 5 (Some year_filters) = (Inr hits, st')
        \<and> map r_id hits = []"
    by (intro exI[of _ hits'] exI[of _ st''] conjI)
  from a b A B show ?thesis by (intro conjI)
qed

text \<open>
  Claim C9. Whatever list \<^verbatim>\<open>search\<close> returns has at most \<^verbatim>\<open>top_k\<close> hits, and at most as
  many as there are entries of the active generation that pass the filters, which is at
  most the number of entries; and when the index is absent or empty after
  \<^verbatim>\<open>build_index\<close> has returned, the result is the empty list.
\<close>

theorem search_result_bounds:
  assumes "argsort_ok (argsort env)"
  shows "(search env st q k fo = (Inr hits, st')
            \<longrightarrow> length hits \<le> nat k
              \<and> length hits \<le> entries_passing (decimal_digit env) (the_filters fo) st'
              \<and> entries_passing (decimal_digit env) (the_filters fo) st' \<le> entries st')
       \<and> (ensure_index env st = (Returned, st1)
            \<longrightarrow> vectors st1 = None \<or> vectors st1 = Some []
            \<longrightarrow> search env st q k fo = (Inr [], st1))"
proof -
  have b: "length hits \<le> nat k
         \<and> length hits \<le> entries_passing (decimal_digit env) (the_filters fo) st'"
    if s: "search env st q k fo = (Inr hits, st')"
  proof -
    from search_cases[OF s] show ?thesis
    proof
      assume "hits = []"
      then show ?thesis by simp
    next
      assume "\<exists>vs qv. vectors st' = Some vs
            \<and> scan (decimal_digit env) (movie_ids st') (id_to_meta st') (map (cosine env qv) vs) k
                 (the_filters fo) (rev (argsort env (map (cosine env qv) vs))) [] = Inr hits"
      then obtain vs qv where v: "vectors st' = Some vs"
        and sc: "scan (decimal_digit env) (movie_ids st') (id_to_meta st') (map (cosine env qv) vs) k
                 (the_filters fo) (rev (argsort env (map (cosine env qv) vs))) [] = Inr hits"
        by blast
      let ?idxs = "rev (argsort env (map (cosine env qv) vs))"
      let ?P = "kept (decimal_digit env) (the_filters fo) (movie_ids st') (id_to_meta st')"
      from assms have "distinct ?idxs" "set ?idxs = {..<length vs}"
        by (simp_all add: argsort_ok_def)
      from length_filter_permutation[OF this, of ?P] v
      have "length (filter ?P ?idxs) = entries_passing (decimal_digit env) (the_filters fo) st'"
        by (simp add: entries_passing_def entries_def)
      with scan_bounds[OF sc] show ?thesis by simp
    qed
  qed
  have e: "entries_passing (decimal_digit env) (the_filters fo) st' \<le> entries st'"
    by (simp add: entries_passing_def le_trans[OF length_filter_le])
  from b e search_empty[of env st st1 q k fo] show ?thesis by blast
qed

theorem search_result_bounds_witness:
  "(\<exists>hits. search demo_env demo_state [97] 5 None = (Inr hits, demo_state)
       \<and> length hits \<le> nat 5 \<and> length hits \<le> entries demo_state)
   \<and> entries demo_state = 3
   \<and> vectors (snd (ensure_index short_env (init NoFile))) = None
   \<and> search short_env (init NoFile) [97] 5 None
       = (Inr [], snd (ensure_index short_env (init NoFile)))"
proof -
  have "\<exists>hits. search demo_env demo_state [97] 5 None = (Inr hits, demo_state)"
    by (simp add: search_defs demo_defs load_model_def query_text_def query_instruction_def
        py_lower_def scan.simps search_hit_def filter_defs py_index_def)
  then obtain hits where s: "search demo_env demo_state [97] 5 None = (Inr hits, demo_state)"
    by blast
  have e: "entries demo_state = 3"
    by (simp add: entries_def demo_state_fields)
  have o: "fst (ensure_index short_env (init NoFile)) = Returned"
    and v: "vectors (snd (ensure_index short_env (init NoFile))) = None"
    by (simp_all add: short_env_def demo_defs build_defs ensure_index_def)
  from o have r: "ensure_index short_env (init NoFile)
                  = (Returned, snd (ensure_index short_env (init NoFile)))"
    by (simp add: prod_eq_iff)
  note t = search_result_bounds[OF demo_argsort_ok]
  from t[of demo_state "[97]" 5 None hits demo_state] s
  have 1: "length hits \<le> nat 5 \<and> length hits \<le> entries demo_state"
    using le_trans by blast
  have sa: "argsort_ok (argsort short_env)"
    by (simp add: short_env_def demo_env_def stable_argsort_ok)
  from search_result_bounds[OF sa, of "init NoFile" "[97]" 5 None] r v
  have 2: "search short_env (init NoFile) [97] 5 None
       = (Inr [], snd (ensure_index short_env (init NoFile)))"
    by blast
  from s 1 e v 2 show ?thesis by blast
qed

end
